theory Spec2Isabelle
  imports Main
begin

unbundle bit_operations_syntax

section \<open>Protocol types (AHB\_types.py)\<close>

text \<open>
  The closed enumerations of the bus protocol. Each Python \<open>IntEnum\<close> is a datatype; the
  integer encoding is given only where the code computes with it (\<open>2**hSize\<close>).
\<close>

datatype HREADY = WaitState | Working
datatype HRESP = Successful | Failed
datatype HEXOKAY = ExFailed | ExSuccessful
datatype HBURST = Single | Incr | Wrap4 | Incr4 | Wrap8 | Incr8 | Wrap16 | Incr16
datatype HMASTLOCK = UnLocked | Locked
datatype HSIZE = Byte | Halfword | Word | Doubleword | Quadword | Octupleword | Bit512 | Bit1024
datatype HNONSEC = Secure | NonSecure
datatype HEXCL = NonExcl | Excl
datatype HTRANS = Idle | Busy | NonSeq | Seq
datatype HWRITE = Read | Write
datatype HSEL = NotSel | Sel
datatype HREADYOUT = NotReady | Ready

text \<open>The integer value of an \<open>HSIZE\<close> member, the exponent in \<open>2**hSize\<close>.\<close>

fun HSIZE_val :: "HSIZE \<Rightarrow> nat" where
  "HSIZE_val Byte = 0"
| "HSIZE_val Halfword = 1"
| "HSIZE_val Word = 2"
| "HSIZE_val Doubleword = 3"
| "HSIZE_val Quadword = 4"
| "HSIZE_val Octupleword = 5"
| "HSIZE_val Bit512 = 6"
| "HSIZE_val Bit1024 = 7"

text \<open>\<open>class HPROT(NamedTuple)\<close> with its field defaults.\<close>

record HPROT =
  width :: int
  data :: bool
  privileged :: bool
  bufferable :: bool
  modifiable :: bool
  lookup :: bool
  allocate :: bool
  shareable :: bool

definition HPROT_default :: HPROT where
  "HPROT_default = \<lparr> width = 7, data = True, privileged = True, bufferable = False,
     modifiable = False, lookup = False, allocate = False, shareable = False \<rparr>"

text \<open>
  \<open>class MCMD(NamedTuple)\<close> and \<open>class ICMD(NamedTuple)\<close>. The two tuples have the same
  eleven leading fields in the same order; \<open>ICMD\<close> has \<open>hSel\<close> as twelfth, which is how
  \<open>ICMD(*cmd, HSEL.Sel)\<close> builds one from the other.
\<close>

record MCMD =
  hAddr :: int
  hBurst :: HBURST
  hMastlock :: HMASTLOCK
  hProt :: HPROT
  hSize :: HSIZE
  hNonsec :: HNONSEC
  hExcl :: HEXCL
  hMaster :: int
  hTrans :: HTRANS
  hWstrb :: int
  hWrite :: HWRITE

record ICMD = MCMD +
  hSel :: HSEL

text \<open>\<open>MCMD()\<close> and \<open>ICMD()\<close>: every field at its declared default.\<close>

definition MCMD_default :: MCMD where
  "MCMD_default = \<lparr> hAddr = 0, hBurst = Incr, hMastlock = UnLocked, hProt = HPROT_default,
     hSize = Byte, hNonsec = Secure, hExcl = NonExcl, hMaster = 0, hTrans = Idle,
     hWstrb = 0, hWrite = Read \<rparr>"

definition ICMD_default :: ICMD where
  "ICMD_default = \<lparr> hAddr = 0, hBurst = Incr, hMastlock = UnLocked, hProt = HPROT_default,
     hSize = Byte, hNonsec = Secure, hExcl = NonExcl, hMaster = 0, hTrans = Idle,
     hWstrb = 0, hWrite = Read, hSel = NotSel \<rparr>"

text \<open>\<open>class SRESP(NamedTuple)\<close>; \<open>SRESP()\<close> is the reset value of a subordinate.\<close>

record SRESP =
  hResp :: HRESP
  hReadyOut :: HREADYOUT
  hExOkay :: HEXOKAY
  hRData :: int

definition SRESP_default :: SRESP where
  "SRESP_default = \<lparr> hResp = Successful, hReadyOut = NotReady, hExOkay = ExFailed, hRData = 0 \<rparr>"

text \<open>
  \<open>ManagerInterface._default_opt["hwstrb"]\<close>: the value a signal-level manager drives when
  the bus has no \<open>hwstrb\<close> signal. The exponent is the bus width in bits.
\<close>

definition default_opt_hwstrb :: "nat \<Rightarrow> int" where
  "default_opt_hwstrb bus_width = 2 ^ bus_width - 1"

text \<open>The testbench-fatal protocol errors (Python exceptions) raised by the subordinates.\<close>

datatype ahb_error =
    UnalignedAddress
  | SizeExceedsBus
  | BurstCrosses1KB
  | IncorrectBurstAddress
  | IncorrectBurstSize
  | IncorrectBurstType
  | IncorrectBurstOperation
  | IncorrectBurstProtection
  | NoBurstContext
  | ExclusiveNotSingle
  | ExclusiveBusy
  | ExclusiveReadAfterRead
  | IndexError
  | KeyError
  | AssertionError

section \<open>Interconnect: master-id tagging (SimInterconnect.py)\<close>

text \<open>
  \<open>change_manager_id\<close>: \<open>m_id\<close> is \<open>self.manager_to_id[manager]\<close>. In Python
  \<open>m_id << 4 | cmd.hMaster\<close> parses as \<open>(m_id << 4) | cmd.hMaster\<close>.
\<close>

definition change_manager_id :: "int \<Rightarrow> MCMD \<Rightarrow> MCMD" where
  "change_manager_id m_id cmd =
     (let new_id = push_bit 4 m_id OR hMaster cmd
      in \<lparr> hAddr = hAddr cmd, hBurst = hBurst cmd, hMastlock = hMastlock cmd,
           hProt = hProt cmd, hSize = hSize cmd, hNonsec = hNonsec cmd,
           hExcl = hExcl cmd, hMaster = new_id, hTrans = hTrans cmd,
           hWstrb = hWstrb cmd, hWrite = hWrite cmd \<rparr>)"

text \<open>
  The command \<open>proc_cmd\<close> queues at the arbiter for a ready manager:
  \<open>cmd = self.change_manager_id(cmd, manager); sub_cmd = ICMD(*cmd, HSEL.Sel)\<close>.
\<close>

definition proc_cmd_sub_cmd :: "int \<Rightarrow> MCMD \<Rightarrow> ICMD" where
  "proc_cmd_sub_cmd m_id cmd = MCMD.extend (change_manager_id m_id cmd) (ICMD.fields Sel)"

section \<open>Memory subordinate (SimMem1PSubordinate.py)\<close>

text \<open>
  A reservation tuple of the exclusive monitor:
  \<open>(hAddr, hSize, hProt, hBurst, hMaster, hNonsec)\<close>.
\<close>

type_synonym trans_id = "int \<times> HSIZE \<times> HPROT \<times> HBURST \<times> int \<times> HNONSEC"

text \<open>
  The attributes of \<open>class SimMem1PSubordinate\<close> that the protocol engine reads or
  writes. \<open>mem\<close> is the \<open>Dict[int, int]\<close> byte store. \<open>temp\<close> is the dictionary from which
  \<open>SRESP(**self.temp)\<close> builds the response; a key that is absent takes the default of
  \<open>SRESP\<close>, so the dictionary is kept as an \<open>SRESP\<close> that starts at the defaults.
  \<open>no_colision\<close> is the attribute that \<open>process_exclusive_transfer\<close> assigns (spelled
  with one l); \<open>no_collision\<close> is the one \<open>__init__\<close>, \<open>do_reset\<close> and the collision
  check use. \<open>hready\<close> is what \<open>set_ready\<close> stores. The attributes that exist only when a
  feature switch is on are always present here and read only under that switch, as in
  the source.
\<close>

record SimMem1PSubordinate =
  length_s :: int
  bus_width :: int
  bus_byte_width :: int
  mem :: "int \<rightharpoonup> int"
  resp :: SRESP
  old_resp :: SRESP
  wait_cycles :: int
  min_wait_cycles :: int
  max_wait_cycles :: int
  error :: bool
  wdata :: int
  process_wdata_next_cycle :: bool
  wcommand :: ICMD
  burst :: bool
  bursting :: bool
  bursting_addresses :: "int list"
  incr_burst :: bool
  burst_size :: HSIZE
  burst_type :: HBURST
  burst_write :: HWRITE
  burst_prot :: HPROT
  secure_transfer :: bool
  nonsec_read :: bool
  nonsec_write :: bool
  exclusive_transfers :: bool
  watched_addresses :: "int set"
  transaction_set :: "trans_id set"
  failed_transaction_set :: "trans_id set"
  no_collision :: bool
  no_colision :: bool
  write_strobe :: bool
  command :: ICMD
  input :: ICMD
  temp :: SRESP
  hready :: HREADY

text \<open>
  The attribute values \<open>__init__\<close> assigns, given the byte width it has computed.
  \<open>hready\<close> is not assigned by \<open>__init__\<close>; registration at the interconnect sets it to
  \<open>WaitState\<close> before the first cycle.
\<close>

definition init_state ::
  "int \<Rightarrow> int \<Rightarrow> int \<Rightarrow> int \<Rightarrow> int \<Rightarrow> bool \<Rightarrow> bool \<Rightarrow> bool \<Rightarrow> bool \<Rightarrow> bool \<Rightarrow> bool
     \<Rightarrow> SimMem1PSubordinate" where
  "init_state len bw bbw min_wait_states max_wait_states sec ns_read ns_write excl wstrobe brst =
     \<lparr> length_s = len, bus_width = bw, bus_byte_width = bbw, mem = Map.empty,
       resp = SRESP_default, old_resp = SRESP_default, wait_cycles = 0,
       min_wait_cycles = min_wait_states, max_wait_cycles = max_wait_states,
       error = False, wdata = 0, process_wdata_next_cycle = False,
       wcommand = ICMD_default, burst = brst, bursting = False, bursting_addresses = [],
       incr_burst = False, burst_size = Byte, burst_type = Single, burst_write = Read,
       burst_prot = HPROT_default, secure_transfer = sec, nonsec_read = ns_read,
       nonsec_write = ns_write, exclusive_transfers = excl, watched_addresses = {},
       transaction_set = {}, failed_transaction_set = {}, no_collision = True,
       no_colision = True, write_strobe = wstrobe, command = ICMD_default,
       input = ICMD_default, temp = SRESP_default, hready = WaitState \<rparr>"

text \<open>
  \<open>__init__(length, bus_width, min_wait_states, max_wait_states, secure_transfer,
  nonsec_read, nonsec_write, exclusive_transfers, write_strobe, burst)\<close>. The four
  \<open>assert\<close>s are the \<open>AssertionError\<close> branches.
\<close>

definition SimMem1PSubordinate_init ::
  "int \<Rightarrow> int \<Rightarrow> int \<Rightarrow> int \<Rightarrow> bool \<Rightarrow> bool \<Rightarrow> bool \<Rightarrow> bool \<Rightarrow> bool \<Rightarrow> bool
     \<Rightarrow> ahb_error + SimMem1PSubordinate" where
  "SimMem1PSubordinate_init len bw min_wait_states max_wait_states sec ns_read ns_write
       excl wstrobe brst =
     (if \<not> len > 0 then Inl AssertionError
      else if len mod 1024 \<noteq> 0 then Inl AssertionError
      else let bbw = bw div 8 in
        if bbw * 8 \<noteq> bw then Inl AssertionError
        else if bbw \<notin> set [1, 2, 4, 8, 16, 32, 64, 128] then Inl AssertionError
        else Inr (init_state len bw bbw min_wait_states max_wait_states sec ns_read ns_write
                    excl wstrobe brst))"

definition set_ready :: "HREADY \<Rightarrow> SimMem1PSubordinate \<Rightarrow> SimMem1PSubordinate" where
  "set_ready hReady s = s\<lparr>hready := hReady\<rparr>"

definition is_ready :: "SimMem1PSubordinate \<Rightarrow> bool" where
  "is_ready s = (hready s = Working)"

definition get_rsp :: "SimMem1PSubordinate \<Rightarrow> SRESP" where
  "get_rsp s = resp s"

definition put_data :: "int \<Rightarrow> SimMem1PSubordinate \<Rightarrow> SimMem1PSubordinate" where
  "put_data d s = s\<lparr>wdata := d\<rparr>"

subsection \<open>Burst tracker\<close>

text \<open>
  \<open>_check_fix_incr\<close>, branch for branch: the second test is again \<open>hBurst == Incr4\<close>, so
  its branch is never taken and \<open>Incr8\<close> falls to the \<open>else\<close>.
\<close>

definition check_fix_incr :: "int \<Rightarrow> HBURST \<Rightarrow> HSIZE \<Rightarrow> ahb_error + unit" where
  "check_fix_incr hAddr' hBurst' hSize' =
     (let first = hAddr' div 1024;
          last = (if hBurst' = Incr4 then hAddr' + 4 * 2 ^ HSIZE_val hSize'
                  else if hBurst' = Incr4 then hAddr' + 8 * 2 ^ HSIZE_val hSize'
                  else hAddr' + 16 * 2 ^ HSIZE_val hSize');
          last = last div 1024
      in if first \<noteq> last then Inl BurstCrosses1KB else Inr ())"

text \<open>The dictionary literal of \<open>_check_not_bursting\<close> that gives a burst its beat count.\<close>

fun burst_beats :: "HBURST \<Rightarrow> nat option" where
  "burst_beats Incr4 = Some 4"
| "burst_beats Wrap4 = Some 4"
| "burst_beats Incr8 = Some 8"
| "burst_beats Wrap8 = Some 8"
| "burst_beats Incr16 = Some 16"
| "burst_beats Wrap16 = Some 16"
| "burst_beats _ = None"

text \<open>
  The two list comprehensions of \<open>_check_not_bursting\<close>, before the first element is
  dropped by \<open>[1:]\<close>.
\<close>

definition incr_addresses :: "int \<Rightarrow> HSIZE \<Rightarrow> nat \<Rightarrow> int list" where
  "incr_addresses hAddr' hSize' n = map (\<lambda>i. hAddr' + int i * 2 ^ HSIZE_val hSize') [0..<n]"

definition wrap_addresses :: "int \<Rightarrow> HSIZE \<Rightarrow> nat \<Rightarrow> int list" where
  "wrap_addresses hAddr' hSize' n =
     (let m = int n * 2 ^ HSIZE_val hSize';
          base_addr = hAddr' AND NOT (m - 1);
          offset = hAddr' mod m
      in map (\<lambda>i. base_addr + (offset + int i * 2 ^ HSIZE_val hSize') mod m) [0..<n])"

definition check_not_bursting ::
  "SimMem1PSubordinate \<Rightarrow> int \<Rightarrow> HBURST \<Rightarrow> HSIZE \<Rightarrow> HTRANS \<Rightarrow> HWRITE \<Rightarrow> HPROT
     \<Rightarrow> ahb_error + SimMem1PSubordinate" where
  "check_not_bursting s hAddr' hBurst' hSize' hTrans' hWrite' hProt' =
     (case (if hBurst' \<in> set [Incr4, Incr8, Incr16]
            then check_fix_incr hAddr' hBurst' hSize' else Inr ()) of
        Inl e \<Rightarrow> Inl e
      | Inr _ \<Rightarrow>
          if hBurst' \<noteq> Single then
            let s1 = s\<lparr>bursting := True, bursting_addresses := [], incr_burst := False,
                       burst_size := hSize', burst_type := hBurst', burst_write := hWrite',
                       burst_prot := hProt'\<rparr>
            in if hBurst' \<noteq> Incr then
                 (case burst_beats hBurst' of
                    None \<Rightarrow> Inl KeyError
                  | Some n \<Rightarrow>
                      let addrs = (if hBurst' \<in> set [Incr4, Incr8, Incr16]
                                   then incr_addresses hAddr' hSize' n
                                   else wrap_addresses hAddr' hSize' n)
                      in Inr (s1\<lparr>bursting_addresses := drop 1 addrs\<rparr>))
               else Inr (s1\<lparr>incr_burst := True,
                              bursting_addresses := [hAddr' + 2 ^ HSIZE_val hSize']\<rparr>)
          else Inr (s\<lparr>bursting := False\<rparr>))"

text \<open>
  \<open>burst_check\<close>. The source calls itself once, after clearing \<open>bursting\<close>, when an Idle or
  NonSeq arrives inside a burst. \<open>bursting_addresses[0] = ...\<close> on an empty list would be
  an \<open>IndexError\<close>.
\<close>

function burst_check ::
  "SimMem1PSubordinate \<Rightarrow> int \<Rightarrow> HBURST \<Rightarrow> HSIZE \<Rightarrow> HTRANS \<Rightarrow> HWRITE \<Rightarrow> HPROT
     \<Rightarrow> ahb_error + SimMem1PSubordinate" where
  "burst_check s hAddr' hBurst' hSize' hTrans' hWrite' hProt' =
     (if \<not> bursting s \<and> hTrans' = NonSeq then
        check_not_bursting s hAddr' hBurst' hSize' hTrans' hWrite' hProt'
      else if bursting s then
        (if hTrans' \<in> set [Idle, NonSeq] then
           burst_check (s\<lparr>bursting := False\<rparr>) hAddr' hBurst' hSize' hTrans' hWrite' hProt'
         else if (case bursting_addresses s of [] \<Rightarrow> False | a # _ \<Rightarrow> hAddr' \<noteq> a) then
           Inl IncorrectBurstAddress
         else if hSize' \<noteq> burst_size s then Inl IncorrectBurstSize
         else if hBurst' \<noteq> burst_type s then Inl IncorrectBurstType
         else if hWrite' \<noteq> burst_write s then Inl IncorrectBurstOperation
         else if hProt' \<noteq> burst_prot s then Inl IncorrectBurstProtection
         else if hTrans' = Seq then
           (if incr_burst s then
              (case bursting_addresses s of
                 [] \<Rightarrow> Inl IndexError
               | _ # rest \<Rightarrow>
                   Inr (s\<lparr>bursting_addresses := (hAddr' + 2 ^ HSIZE_val hSize') # rest\<rparr>))
            else
              (let s1 = s\<lparr>bursting_addresses := drop 1 (bursting_addresses s)\<rparr>
               in if bursting_addresses s1 = [] then Inr (s1\<lparr>bursting := False\<rparr>)
                  else Inr s1))
         else Inr s)
      else if hTrans' \<in> set [Seq, Busy] then Inl NoBurstContext
      else Inr s)"
  by pat_completeness auto

termination
  by (relation "measure (\<lambda>(s, _). if bursting s then 1 else 0)") auto

declare burst_check.simps [simp del]

subsection \<open>Exclusive monitor: admission check\<close>

definition exclusive_check ::
  "SimMem1PSubordinate \<Rightarrow> int \<Rightarrow> HSIZE \<Rightarrow> HPROT \<Rightarrow> HBURST \<Rightarrow> int \<Rightarrow> HNONSEC \<Rightarrow> HEXCL
     \<Rightarrow> HTRANS \<Rightarrow> HWRITE \<Rightarrow> ahb_error + unit" where
  "exclusive_check s hAddr' hSize' hProt' hBurst' hMaster' hNonsec' hExcl' hTrans' hWrite' =
     (let trans = (hAddr', hSize', hProt', hBurst', hMaster', hNonsec')
      in if hExcl' = Excl then
           (if burst s \<and> hBurst' \<notin> set [Single, Incr] then Inl ExclusiveNotSingle
            else if hTrans' = Busy then Inl ExclusiveBusy
            else if hWrite' = Read \<and> trans \<in> transaction_set s then Inl ExclusiveReadAfterRead
            else Inr ())
         else Inr ())"

subsection \<open>Latching a command\<close>

text \<open>
  \<open>put_cmd\<close>. \<open>put_cmd_input\<close> is \<open>ICMD(**temp)\<close>: the fields the method copies from the
  command, under the feature switches, over the defaults of \<open>ICMD\<close>. \<open>self.input\<close> is built
  from the dictionary before \<open>temp['hAddr'] %= self.length\<close> runs, and \<open>self.command\<close> is a
  copy of \<open>self.input\<close>, so the folded address is stored nowhere. An exception leaves no
  state behind (the simulation halts).
\<close>

definition put_cmd_input :: "ICMD \<Rightarrow> SimMem1PSubordinate \<Rightarrow> ICMD" where
  "put_cmd_input cmd s =
     (let t = ICMD_default\<lparr>hAddr := hAddr cmd, hSize := hSize cmd, hTrans := hTrans cmd,
                           hWrite := hWrite cmd, hSel := hSel cmd, hProt := hProt cmd\<rparr>;
          t = (if burst s then t\<lparr>hBurst := hBurst cmd\<rparr> else t);
          t = (if secure_transfer s then t\<lparr>hNonsec := hNonsec cmd\<rparr> else t);
          t = (if exclusive_transfers s
               then t\<lparr>hExcl := hExcl cmd, hMaster := hMaster cmd\<rparr> else t)
      in if write_strobe s then t\<lparr>hWstrb := hWstrb cmd\<rparr> else t)"

definition put_cmd :: "ICMD \<Rightarrow> SimMem1PSubordinate \<Rightarrow> ahb_error + SimMem1PSubordinate" where
  "put_cmd cmd s =
     (let s1 = s\<lparr>input := put_cmd_input cmd s\<rparr>
      in if \<not> is_ready s1 then Inr s1
         else
           let s2 = s1\<lparr>command := input s1\<rparr>
           in if hSel cmd = Sel then
                (if hAddr cmd mod 2 ^ HSIZE_val (hSize cmd) \<noteq> 0 then Inl UnalignedAddress
                 else if bus_byte_width s2 < 2 ^ HSIZE_val (hSize cmd) then Inl SizeExceedsBus
                 else
                   (case (if burst s2
                          then burst_check s2 (hAddr (command s2)) (hBurst cmd) (hSize cmd)
                                 (hTrans cmd) (hWrite cmd) (hProt cmd)
                          else Inr s2) of
                      Inl e \<Rightarrow> Inl e
                    | Inr s3 \<Rightarrow>
                        if exclusive_transfers s3 then
                          (case exclusive_check s3 (hAddr (command s3)) (hSize cmd) (hProt cmd)
                                  (if burst s3 then hBurst cmd else Single) (hMaster cmd)
                                  (hNonsec cmd) (hExcl cmd) (hTrans cmd) (hWrite cmd) of
                             Inl e \<Rightarrow> Inl e
                           | Inr _ \<Rightarrow> Inr s3)
                        else Inr s3))
              else Inr s2)"

subsection \<open>Reset, secure filter, exclusive monitor\<close>

definition do_reset :: "SimMem1PSubordinate \<Rightarrow> SimMem1PSubordinate" where
  "do_reset s =
     (let s1 = s\<lparr>error := False, mem := Map.empty, wait_cycles := 0\<rparr>;
          s2 = (if exclusive_transfers s1
                then s1\<lparr>watched_addresses := {}, transaction_set := {}, no_collision := True\<rparr>
                else s1)
      in s2\<lparr>resp := SRESP_default\<rparr>)"

definition process_secure_transfer :: "SimMem1PSubordinate \<Rightarrow> SimMem1PSubordinate" where
  "process_secure_transfer s =
     (if secure_transfer s then
        (if hTrans (command s) \<notin> set [Idle, Busy] \<and> hNonsec (command s) = NonSecure then
           (if hWrite (command s) = Read \<and> \<not> nonsec_read s then s\<lparr>error := True\<rparr>
            else if hWrite (command s) = Write \<and> \<not> nonsec_write s then s\<lparr>error := True\<rparr>
            else s)
         else s)
      else s)"

text \<open>The reservation tuple \<open>_trans_id\<close> that \<open>process_exclusive_transfer\<close> builds.\<close>

definition command_trans_id :: "SimMem1PSubordinate \<Rightarrow> trans_id" where
  "command_trans_id s =
     (hAddr (command s), hSize (command s), hProt (command s),
      (if burst s then hBurst (command s) else Single),
      hMaster (command s), hNonsec (command s))"

text \<open>
  \<open>process_exclusive_transfer\<close>. Its first statement assigns \<open>self.no_colision\<close>; the flag
  the write path reads, \<open>self.no_collision\<close>, is only ever cleared here.
\<close>

definition process_exclusive_transfer :: "SimMem1PSubordinate \<Rightarrow> SimMem1PSubordinate" where
  "process_exclusive_transfer s =
     (if exclusive_transfers s then
        (let s0 = s\<lparr>no_colision := True\<rparr>
         in if hExcl (command s0) = Excl then
              (let trans = command_trans_id s0;
                   s1 = (if hWrite (command s0) = Read then
                           s0\<lparr>transaction_set := insert trans (transaction_set s0),
                              watched_addresses := watched_addresses s0 \<union>
                                {hAddr (command s0) ..<
                                   hAddr (command s0) + 2 ^ HSIZE_val (hSize (command s0))},
                              temp := (temp s0)\<lparr>hExOkay := ExSuccessful\<rparr>\<rparr>
                         else s0)
               in if hWrite (command s1) = Write then
                    (if trans \<notin> transaction_set s1 \<or> trans \<in> failed_transaction_set s1 then
                       s1\<lparr>failed_transaction_set := failed_transaction_set s1 - {trans},
                          no_collision := False\<rparr>
                     else s1\<lparr>temp := (temp s1)\<lparr>hExOkay := ExSuccessful\<rparr>\<rparr>)
                  else s1)
            else s0)
      else s)"

definition exclusive_trans_colision_check :: "SimMem1PSubordinate \<Rightarrow> int \<Rightarrow> bool" where
  "exclusive_trans_colision_check s addr = no_collision s"

text \<open>Whether the byte range of a reservation tuple, \<open>range(addr, addr + 2**size)\<close>, holds \<open>a\<close>.\<close>

fun covers :: "trans_id \<Rightarrow> int \<Rightarrow> bool" where
  "covers (addr, size', rest) a = (addr \<le> a \<and> a < addr + 2 ^ HSIZE_val size')"

text \<open>
  \<open>exclusive_trans_colision_update\<close>; \<open>rm\<close> is the set of tuples collected by the first loop.
  The caller has checked that the address is watched, so \<open>remove\<close> does not raise.
\<close>

definition exclusive_trans_colision_update ::
  "SimMem1PSubordinate \<Rightarrow> int \<Rightarrow> SimMem1PSubordinate" where
  "exclusive_trans_colision_update s addr =
     (let rm = Set.filter (\<lambda>t. covers t addr) (transaction_set s)
      in s\<lparr>watched_addresses := watched_addresses s - {addr},
           failed_transaction_set := failed_transaction_set s \<union> rm,
           transaction_set := transaction_set s - rm\<rparr>)"

subsection \<open>Write application and read composition\<close>

text \<open>
  One pass of the loop body of \<open>process_write\<close> for byte index \<open>i\<close>. \<open>_modify\<close> starts as
  \<open>True\<close> and is reassigned in every pass exactly when exclusives are enabled, so it is a
  function of the state. \<open>_offset\<close> is not negative for a positive bus width (Python's
  \<open>%\<close>), so \<open>1 << i + _offset\<close> is a shift by a natural number.
\<close>

definition process_write_byte :: "nat \<Rightarrow> SimMem1PSubordinate \<Rightarrow> SimMem1PSubordinate" where
  "process_write_byte i s =
     (let offset = hAddr (wcommand s) mod bus_byte_width s;
          addr = int i + hAddr (wcommand s);
          modify = (if exclusive_transfers s then exclusive_trans_colision_check s addr
                    else True);
          s1 = (if exclusive_transfers s \<and> addr \<in> watched_addresses s
                then exclusive_trans_colision_update s addr else s)
      in if modify then
           (let mask0 = (2 ^ 8 - 1 :: int);
                mask1 = (if write_strobe s1
                         then mask0 * (if hWstrb (wcommand s1) AND push_bit (i + nat offset) 1 \<noteq> 0
                                       then 1 else 0)
                         else mask0)
            in if addr \<notin> dom (mem s1) \<or> mask1 \<noteq> 0
               then s1\<lparr>mem := (mem s1)(addr \<mapsto>
                               drop_bit (8 * (i + nat offset)) (wdata s1) AND mask1)\<rparr>
               else s1)
         else s1)"

definition process_write :: "SimMem1PSubordinate \<Rightarrow> SimMem1PSubordinate" where
  "process_write s =
     fold process_write_byte [0 ..< 2 ^ HSIZE_val (hSize (wcommand s))]
       (s\<lparr>process_wdata_next_cycle := False\<rparr>)"

text \<open>\<open>self.mem[_addr] if _addr in self.mem else 0\<close>.\<close>

definition mem_read :: "(int \<rightharpoonup> int) \<Rightarrow> int \<Rightarrow> int" where
  "mem_read m a = (case m a of Some d \<Rightarrow> d | None \<Rightarrow> 0)"

text \<open>
  The read loop of \<open>start\<close>: each byte of \<open>[hAddr, hAddr + 2**hSize)\<close> is or-ed into
  \<open>temp["hRData"]\<close> at its lane.
\<close>

definition read_hRData :: "SimMem1PSubordinate \<Rightarrow> int" where
  "read_hRData s =
     (let offset = hAddr (command s) mod bus_byte_width s
      in fold (\<lambda>i acc. acc OR push_bit (8 * (i + nat offset))
                               (mem_read (mem s) (int i + hAddr (command s))))
           [0 ..< 2 ^ HSIZE_val (hSize (command s))] (hRData (temp s)))"

subsection \<open>Wait-state engine and the per-cycle loop\<close>

text \<open>
  \<open>process\<close>. The two Poisson samples the method may draw are the arguments \<open>r1\<close>
  (mean \<open>(max + min) / 2\<close>) and \<open>r2\<close> (mean \<open>min\<close>, drawn only for a Seq beat of a burst).
  \<open>process_begin\<close> is the run of assignments before the call of
  \<open>process_secure_transfer\<close>.
\<close>

definition process_begin :: "nat \<Rightarrow> SimMem1PSubordinate \<Rightarrow> SimMem1PSubordinate" where
  "process_begin r1 s =
     (let s1 = s\<lparr>error := False\<rparr>;
          s2 = s1\<lparr>wait_cycles := min (int r1) (max_wait_cycles s1)\<rparr>;
          s3 = s2\<lparr>temp := (temp s2)\<lparr>hRData := 0, hResp := Successful, hReadyOut := NotReady\<rparr>\<rparr>
      in if exclusive_transfers s3 then s3\<lparr>temp := (temp s3)\<lparr>hExOkay := ExFailed\<rparr>\<rparr>
         else s3)"

definition process :: "nat \<Rightarrow> nat \<Rightarrow> SimMem1PSubordinate \<Rightarrow> SimMem1PSubordinate" where
  "process r1 r2 s =
     (let s5 = process_secure_transfer (process_begin r1 s)
      in if error s5 then s5
         else
           (let s6 = process_exclusive_transfer s5
            in if hTrans (command s6) \<in> set [Idle, Busy] then s6\<lparr>wait_cycles := 0\<rparr>
               else if burst s6 \<and> hTrans (command s6) = Seq
               then s6\<lparr>wait_cycles := min (int r2) (max_wait_cycles s6)\<rparr>
               else s6))"

text \<open>
  One iteration of the \<open>while True\<close> loop of \<open>start\<close>, from \<open>await readonly\<close> to
  \<open>await clock_edge\<close>, in the four parts the source separates by blank lines. \<open>rst\<close> is
  \<open>self.is_reset()\<close> in this cycle.
\<close>

text \<open>\<open>self.temp["hRData"] = 0; await readonly; self.old_resp = copy(self.resp)\<close>.\<close>

definition start_latch :: "SimMem1PSubordinate \<Rightarrow> SimMem1PSubordinate" where
  "start_latch s = (let s1 = s\<lparr>temp := (temp s)\<lparr>hRData := 0\<rparr>\<rparr> in s1\<lparr>old_resp := resp s1\<rparr>)"

text \<open>The \<open>if self.is_reset(): ... elif self.is_ready() and self.command.hSel == HSEL.Sel: ...\<close> part.\<close>

definition start_command ::
  "bool \<Rightarrow> nat \<Rightarrow> nat \<Rightarrow> SimMem1PSubordinate \<Rightarrow> SimMem1PSubordinate" where
  "start_command rst r1 r2 s =
     (if rst then do_reset s
      else if is_ready s \<and> hSel (command s) = Sel then
        (let s1 = (if process_wdata_next_cycle s then process_write s else s);
             s2 = process r1 r2 s1
         in if error s2
            then s2\<lparr>wait_cycles := 1, temp := (temp s2)\<lparr>hRData := 0, hResp := Failed\<rparr>\<rparr>
            else s2)
      else s)"

text \<open>The part commented \<open>update state and prepare response\<close>.\<close>

definition start_response :: "bool \<Rightarrow> SimMem1PSubordinate \<Rightarrow> SimMem1PSubordinate" where
  "start_response rst s =
     (if \<not> rst \<and> wait_cycles s = 0 \<and> \<not> error s \<and> hTrans (command s) \<notin> set [Idle, Busy] then
        (if hWrite (command s) = Read
         then s\<lparr>temp := (temp s)\<lparr>hRData := read_hRData s\<rparr>\<rparr>
         else s\<lparr>process_wdata_next_cycle := True, wcommand := command s\<rparr>)
      else s)"

text \<open>
  The part commented \<open>mark response as avlid\<close>, then \<open>self.resp = SRESP(**self.temp)\<close> and
  \<open>self.wait_cycles -= 1\<close>.
\<close>

definition start_commit :: "SimMem1PSubordinate \<Rightarrow> SimMem1PSubordinate" where
  "start_commit s =
     (let s1 = (if wait_cycles s = 0 then s\<lparr>temp := (temp s)\<lparr>hReadyOut := Ready\<rparr>\<rparr> else s);
          s2 = s1\<lparr>resp := temp s1\<rparr>
      in s2\<lparr>wait_cycles := wait_cycles s2 - 1\<rparr>)"

definition start_step ::
  "bool \<Rightarrow> nat \<Rightarrow> nat \<Rightarrow> SimMem1PSubordinate \<Rightarrow> SimMem1PSubordinate" where
  "start_step rst r1 r2 s =
     start_commit (start_response rst (start_command rst r1 r2 (start_latch s)))"

text \<open>
  The operations the interconnect, the test bench and the clock apply to a memory
  subordinate, and a run of them that stops at the first exception.
\<close>

datatype mem_op =
    PutCmd ICMD
  | PutData int
  | SetReady HREADY
  | Process nat nat
  | ProcessWrite
  | DoReset
  | StartStep bool nat nat

fun apply_op :: "mem_op \<Rightarrow> SimMem1PSubordinate \<Rightarrow> ahb_error + SimMem1PSubordinate" where
  "apply_op (PutCmd cmd) s = put_cmd cmd s"
| "apply_op (PutData d) s = Inr (put_data d s)"
| "apply_op (SetReady h) s = Inr (set_ready h s)"
| "apply_op (Process r1 r2) s = Inr (process r1 r2 s)"
| "apply_op ProcessWrite s = Inr (process_write s)"
| "apply_op DoReset s = Inr (do_reset s)"
| "apply_op (StartStep rst r1 r2) s = Inr (start_step rst r1 r2 s)"

fun run_ops :: "mem_op list \<Rightarrow> SimMem1PSubordinate \<Rightarrow> ahb_error + SimMem1PSubordinate" where
  "run_ops [] s = Inr s"
| "run_ops (x # xs) s = (case apply_op x s of Inl e \<Rightarrow> Inl e | Inr s' \<Rightarrow> run_ops xs s')"

section \<open>Default subordinate (SimDefaultSubordinate.py)\<close>

text \<open>
  The attributes of \<open>class SimDefaultSubordinate\<close>, prefixed with \<open>d_\<close>. \<open>d_temp\<close> is again
  the response dictionary, empty when \<open>start\<close> begins, kept as an \<open>SRESP\<close> at the defaults.
\<close>

record SimDefaultSubordinate =
  d_length :: int
  d_bus_width :: int
  d_bus_byte_width :: int
  d_temp :: SRESP
  d_resp :: SRESP
  d_old_resp :: SRESP
  d_wait_cycles :: int
  d_error :: bool
  d_input :: ICMD
  d_command :: ICMD
  d_wdata :: int
  d_bursting :: bool
  d_hready :: HREADY

text \<open>\<open>__init__(length, bus_width)\<close> of the default subordinate, with its \<open>assert\<close>s.\<close>

definition d_init_state :: "int \<Rightarrow> int \<Rightarrow> int \<Rightarrow> SimDefaultSubordinate" where
  "d_init_state len bw bbw =
     \<lparr> d_length = len, d_bus_width = bw, d_bus_byte_width = bbw, d_temp = SRESP_default,
       d_resp = SRESP_default, d_old_resp = SRESP_default, d_wait_cycles = 0,
       d_error = False, d_input = ICMD_default, d_command = ICMD_default, d_wdata = 0,
       d_bursting = False, d_hready = WaitState \<rparr>"

definition SimDefaultSubordinate_init :: "int \<Rightarrow> int \<Rightarrow> ahb_error + SimDefaultSubordinate" where
  "SimDefaultSubordinate_init len bw =
     (if \<not> len > 0 then Inl AssertionError
      else if len mod 1024 \<noteq> 0 then Inl AssertionError
      else let bbw = bw div 8 in
        if bbw * 8 \<noteq> bw then Inl AssertionError
        else if bbw \<notin> set [1, 2, 4, 8, 16, 32, 64, 128] then Inl AssertionError
        else Inr (d_init_state len bw bbw))"

text \<open>\<open>put_cmd\<close> of the default subordinate.\<close>

definition d_put_cmd ::
  "ICMD \<Rightarrow> SimDefaultSubordinate \<Rightarrow> ahb_error + SimDefaultSubordinate" where
  "d_put_cmd cmd s =
     (let t = ICMD_default\<lparr>hAddr := hAddr cmd, hSize := hSize cmd, hTrans := hTrans cmd,
                           hWrite := hWrite cmd, hSel := hSel cmd\<rparr>;
          s1 = s\<lparr>d_input := t\<rparr>
      in if \<not> (d_hready s1 = Working) then Inr s1
         else
           let s2 = s1\<lparr>d_command := d_input s1\<rparr>
           in if hSel cmd = Sel then
                (if hAddr cmd mod 2 ^ HSIZE_val (hSize cmd) \<noteq> 0 then Inl UnalignedAddress
                 else if d_bus_byte_width s2 < 2 ^ HSIZE_val (hSize cmd) then Inl SizeExceedsBus
                 else Inr s2)
              else Inr s2)"

definition d_set_ready :: "HREADY \<Rightarrow> SimDefaultSubordinate \<Rightarrow> SimDefaultSubordinate" where
  "d_set_ready hReady s = s\<lparr>d_hready := hReady\<rparr>"

definition d_is_ready :: "SimDefaultSubordinate \<Rightarrow> bool" where
  "d_is_ready s = (d_hready s = Working)"

definition d_do_reset :: "SimDefaultSubordinate \<Rightarrow> SimDefaultSubordinate" where
  "d_do_reset s = s\<lparr>d_error := False, d_wait_cycles := 0, d_resp := SRESP_default\<rparr>"

definition d_process :: "SimDefaultSubordinate \<Rightarrow> SimDefaultSubordinate" where
  "d_process s =
     (let s1 = s\<lparr>d_error := False\<rparr>;
          s2 = s1\<lparr>d_temp := (d_temp s1)\<lparr>hRData := 0, hResp := Successful\<rparr>\<rparr>
      in if hTrans (d_command s2) \<in> set [Idle, Busy] then s2\<lparr>d_wait_cycles := 0\<rparr>
         else s2\<lparr>d_temp := (d_temp s2)\<lparr>hResp := Failed\<rparr>, d_wait_cycles := 1\<rparr>)"

text \<open>One iteration of the \<open>while True\<close> loop of the default subordinate's \<open>start\<close>.\<close>

definition d_start_step :: "bool \<Rightarrow> SimDefaultSubordinate \<Rightarrow> SimDefaultSubordinate" where
  "d_start_step rst s =
     (let s1 = s\<lparr>d_old_resp := d_resp s\<rparr>;
          s2 = (if rst then d_do_reset s1
                else if d_is_ready s1 \<and> hSel (d_command s1) = Sel then d_process s1
                else s1);
          s3 = (if d_wait_cycles s2 = 0 then s2\<lparr>d_temp := (d_temp s2)\<lparr>hReadyOut := Ready\<rparr>\<rparr>
                else s2\<lparr>d_temp := (d_temp s2)\<lparr>hReadyOut := NotReady\<rparr>\<rparr>);
          s4 = s3\<lparr>d_resp := d_temp s3\<rparr>
      in s4\<lparr>d_wait_cycles := d_wait_cycles s4 - 1\<rparr>)"

section \<open>Notions used to state the properties\<close>

subsection \<open>Burst address law\<close>

text \<open>
  The beat addresses as the specification writes them: beat \<open>k\<close> of an \<open>Incr-N\<close> burst is
  \<open>addr + k * 2^S\<close>; beat \<open>k\<close> of a \<open>Wrap-N\<close> burst is
  \<open>(addr & ~(N * 2^S - 1)) + ((addr mod (N * 2^S)) + k * 2^S) mod (N * 2^S)\<close>.
\<close>

definition incr_beat :: "int \<Rightarrow> HSIZE \<Rightarrow> nat \<Rightarrow> int" where
  "incr_beat addr S = (\<lambda>k. addr + int k * 2 ^ HSIZE_val S)"

definition wrap_beat :: "int \<Rightarrow> HSIZE \<Rightarrow> nat \<Rightarrow> nat \<Rightarrow> int" where
  "wrap_beat addr S N =
     (\<lambda>k. (addr AND NOT (int N * 2 ^ HSIZE_val S - 1)) +
           ((addr mod (int N * 2 ^ HSIZE_val S)) + int k * 2 ^ HSIZE_val S)
             mod (int N * 2 ^ HSIZE_val S))"

definition beat_law :: "HBURST \<Rightarrow> int \<Rightarrow> HSIZE \<Rightarrow> nat \<Rightarrow> nat \<Rightarrow> int" where
  "beat_law b addr S N =
     (if b \<in> {Incr4, Incr8, Incr16} then incr_beat addr S else wrap_beat addr S N)"

subsection \<open>Secure filter and wait states\<close>

text \<open>
  The latched command is one the secure filter denies: the filter is on, the transfer is
  neither Idle nor Busy, it is non-secure, and its direction is not permitted.
\<close>

definition secure_denied :: "SimMem1PSubordinate \<Rightarrow> bool" where
  "secure_denied s =
     (secure_transfer s \<and> hTrans (command s) \<notin> {Idle, Busy} \<and>
      hNonsec (command s) = NonSecure \<and>
      ((hWrite (command s) = Read \<and> \<not> nonsec_read s) \<or>
       (hWrite (command s) = Write \<and> \<not> nonsec_write s)))"

text \<open>
  A cycle in which the subordinate is held in a wait state: the interconnect (and the
  test bench) calls \<open>set_ready(HREADY.WaitState)\<close> on a subordinate whose last response
  was not ready, and then the subordinate's loop runs once. \<open>held_cycles\<close> is any number
  of such cycles, each with its own reset input and samples.
\<close>

definition held_step ::
  "bool \<times> nat \<times> nat \<Rightarrow> SimMem1PSubordinate \<Rightarrow> SimMem1PSubordinate" where
  "held_step c s = (case c of (rst, r1, r2) \<Rightarrow> start_step rst r1 r2 (set_ready WaitState s))"

definition held_cycles ::
  "(bool \<times> nat \<times> nat) list \<Rightarrow> SimMem1PSubordinate \<Rightarrow> SimMem1PSubordinate" where
  "held_cycles cs s = fold held_step cs s"

text \<open>No write is scheduled, and none can be scheduled while the subordinate is held.\<close>

definition write_blocked :: "SimMem1PSubordinate \<Rightarrow> bool" where
  "write_blocked s = (\<not> process_wdata_next_cycle s \<and> (error s \<or> wait_cycles s < 0))"

subsection \<open>Write application, byte by byte\<close>

text \<open>
  For the write held in \<open>wcommand\<close> and \<open>wdata\<close>: the lane offset of its first byte, whether
  the collision flag lets it modify memory, whether byte \<open>i\<close> is strobed in, the byte value
  \<open>(hWData >> 8 * (offset + i)) & 0xFF\<close>, and the store entry that results for byte \<open>i\<close>
  from the old entry.
\<close>

definition write_offset :: "SimMem1PSubordinate \<Rightarrow> nat" where
  "write_offset s = nat (hAddr (wcommand s) mod bus_byte_width s)"

definition write_modify :: "SimMem1PSubordinate \<Rightarrow> bool" where
  "write_modify s = (if exclusive_transfers s then no_collision s else True)"

definition strobe_on :: "SimMem1PSubordinate \<Rightarrow> nat \<Rightarrow> bool" where
  "strobe_on s i = (write_strobe s \<longrightarrow> bit (hWstrb (wcommand s)) (i + write_offset s))"

definition lane_byte :: "SimMem1PSubordinate \<Rightarrow> nat \<Rightarrow> int" where
  "lane_byte s i = drop_bit (8 * (i + write_offset s)) (wdata s) AND 255"

definition written_byte :: "SimMem1PSubordinate \<Rightarrow> nat \<Rightarrow> int option \<Rightarrow> int option" where
  "written_byte s i old =
     (if \<not> write_modify s then old
      else if strobe_on s i then Some (lane_byte s i)
      else (case old of None \<Rightarrow> Some 0 | Some d \<Rightarrow> Some d))"

text \<open>
  The written word masked by the write strobes, each byte at its lane
  \<open>(A mod bus_byte_width + i) * 8\<close>; and the word in which a byte that is strobed out
  shows what the store held before the write.
\<close>

definition masked_written_word :: "SimMem1PSubordinate \<Rightarrow> int" where
  "masked_written_word s =
     fold (\<lambda>i acc. acc OR push_bit (8 * (i + write_offset s))
                           (if strobe_on s i then lane_byte s i else 0))
       [0 ..< 2 ^ HSIZE_val (hSize (wcommand s))] 0"

definition merged_written_word :: "SimMem1PSubordinate \<Rightarrow> int" where
  "merged_written_word s =
     fold (\<lambda>i acc. acc OR push_bit (8 * (i + write_offset s))
                           (if strobe_on s i then lane_byte s i
                            else mem_read (mem s) (int i + hAddr (wcommand s))))
       [0 ..< 2 ^ HSIZE_val (hSize (wcommand s))] 0"

subsection \<open>Exclusive monitor\<close>

text \<open>Every address in the byte range of a live reservation is watched.\<close>

definition reservations_watched :: "SimMem1PSubordinate \<Rightarrow> bool" where
  "reservations_watched s =
     (\<forall>t \<in> transaction_set s. \<forall>a. covers t a \<longrightarrow> a \<in> watched_addresses s)"

section \<open>Concrete subordinates and runs used by the instances below\<close>

text \<open>
  A 1 KiB memory subordinate on a 32-bit bus, as the test bench constructs it
  (\<open>SimMem1PSubordinate(1024, 32, ...)\<close>, wait states 5 to 25), with
  \<open>set_ready(HREADY.Working)\<close> applied, and one feature switch on: the burst tracker, the
  exclusive monitor, the write strobes, or the secure filter with nothing permitted.
\<close>

definition burst_subordinate :: SimMem1PSubordinate where
  "burst_subordinate =
     set_ready Working (init_state 1024 32 4 5 25 False False False False False True)"

definition excl_subordinate :: SimMem1PSubordinate where
  "excl_subordinate =
     set_ready Working (init_state 1024 32 4 5 25 False False False True False False)"

definition strobe_subordinate :: SimMem1PSubordinate where
  "strobe_subordinate =
     set_ready Working (init_state 1024 32 4 5 25 False False False False True False)"

definition secure_subordinate :: SimMem1PSubordinate where
  "secure_subordinate =
     set_ready Working (init_state 1024 32 4 5 25 True False False False False False)"

text \<open>
  The command the test bench sends for a vector
  \<open>(address, size, NonSeq, direction, exclusive, non-secure, strobe)\<close>: a selected single
  transfer.
\<close>

definition test_cmd ::
  "int \<Rightarrow> HSIZE \<Rightarrow> HWRITE \<Rightarrow> HEXCL \<Rightarrow> HNONSEC \<Rightarrow> int \<Rightarrow> ICMD" where
  "test_cmd a sz w e n strb =
     ICMD_default\<lparr>hAddr := a, hBurst := Single, hMastlock := Locked, hSize := sz,
                   hNonsec := n, hExcl := e, hTrans := NonSeq, hWstrb := strb, hWrite := w,
                   hSel := Sel\<rparr>"

text \<open>The state a run ends in; the start state if the run raises.\<close>

definition final_state :: "mem_op list \<Rightarrow> SimMem1PSubordinate \<Rightarrow> SimMem1PSubordinate" where
  "final_state ops s = (case run_ops ops s of Inr s' \<Rightarrow> s' | Inl e \<Rightarrow> s)"

text \<open>
  An exclusive byte write with no reservation, then a plain byte write of \<open>0xCC\<close> to the
  same address, then a byte read of it; every wait-state sample is zero.
\<close>

definition stale_flag_run :: "mem_op list" where
  "stale_flag_run =
     [PutCmd (test_cmd 0 Byte Write Excl Secure 0), StartStep False 0 0,
      PutData 170, PutCmd (test_cmd 0 Byte Write NonExcl Secure 0), StartStep False 0 0,
      PutData 204, PutCmd (test_cmd 0 Byte Read NonExcl Secure 0), StartStep False 0 0]"

text \<open>
  An exclusive word read at address 0, then a plain byte write to address 0, then a
  plain byte read; the write is applied in the third cycle.
\<close>

definition reserve_run :: "mem_op list" where
  "reserve_run = [PutCmd (test_cmd 0 Word Read Excl Secure 0), StartStep False 0 0]"

definition partial_collision_run :: "mem_op list" where
  "partial_collision_run =
     reserve_run @
     [PutCmd (test_cmd 0 Byte Write NonExcl Secure 0), StartStep False 0 0,
      PutData 187, PutCmd (test_cmd 0 Byte Read NonExcl Secure 0), StartStep False 0 0]"

text \<open>
  From the write-strobe test: a word write of \<open>0x55AA55AA\<close> with strobe \<open>0xF\<close>, applied; then
  a word write of \<open>0xAA55AA55\<close> with strobe \<open>0xA\<close> scheduled, its data latched, and a word read
  of the same address latched as the next command.
\<close>

definition strobe_run :: "mem_op list" where
  "strobe_run =
     [PutCmd (test_cmd 0 Word Write NonExcl Secure 15), StartStep False 0 0,
      PutData 1437226410, PutCmd (test_cmd 0 Word Write NonExcl Secure 10), StartStep False 0 0,
      PutData 2857740885, PutCmd (test_cmd 0 Word Read NonExcl Secure 0)]"

text \<open>The second write of that run alone, on a store that holds nothing yet.\<close>

definition strobe_fresh_run :: "mem_op list" where
  "strobe_fresh_run =
     [PutCmd (test_cmd 0 Word Write NonExcl Secure 10), StartStep False 0 0,
      PutData 2857740885, PutCmd (test_cmd 0 Word Read NonExcl Secure 0)]"

text \<open>The reservation tuple of the exclusive word read of \<open>reserve_run\<close>.\<close>

definition word_reservation :: trans_id where
  "word_reservation = (0, Word, HPROT_default, Single, 0, Secure)"

text \<open>The tracker state after \<open>burst_check\<close> accepts a write beat; the old state if it raises.\<close>

definition after_burst_check ::
  "SimMem1PSubordinate \<Rightarrow> int \<Rightarrow> HBURST \<Rightarrow> HSIZE \<Rightarrow> HTRANS \<Rightarrow> SimMem1PSubordinate" where
  "after_burst_check s a b S tr =
     (case burst_check s a b S tr Write HPROT_default of Inr t \<Rightarrow> t | Inl e \<Rightarrow> s)"

text \<open>A secure subordinate that has latched a non-secure word write, and a non-secure read.\<close>

definition denied_write_state :: SimMem1PSubordinate where
  "denied_write_state =
     final_state [PutCmd (test_cmd 0 Word Write NonExcl NonSecure 0)] secure_subordinate"

definition denied_read_state :: SimMem1PSubordinate where
  "denied_read_state =
     final_state [PutCmd (test_cmd 0 Word Read NonExcl NonSecure 0)] secure_subordinate"

text \<open>
  The default subordinate the interconnect attaches to a manager
  (\<open>SimDefaultSubordinate(0x400, bus_width)\<close>), ready, with a command latched.
\<close>

definition default_with :: "HTRANS \<Rightarrow> SimDefaultSubordinate" where
  "default_with tr =
     (case d_put_cmd (test_cmd 0 Word Write NonExcl Secure 0\<lparr>hTrans := tr\<rparr>)
             (d_set_ready Working (d_init_state 1024 32 4)) of
        Inr s \<Rightarrow> s | Inl e \<Rightarrow> d_init_state 1024 32 4)"

section \<open>Protocol types: the default write strobe\<close>

text \<open>
  Claim C9, as stated, at a 32-bit bus (four byte lanes): the all-defaults \<open>MCMD\<close> would
  have \<open>hWstrb = 2^4 - 1\<close>. It does not.
\<close>

theorem default_hWstrb_not_all_ones:
  "\<not> (hWstrb MCMD_default = 2 ^ 4 - 1)"
  by (simp add: MCMD_default_def)

text \<open>
  Claim C9, amended: the all-defaults command records \<open>MCMD()\<close> and \<open>ICMD()\<close> have
  \<open>hWstrb = 0\<close>, no strobe bit set. (The all-ones value is the default a signal-level
  manager takes for an unconnected \<open>hwstrb\<close> signal, \<open>default_opt_hwstrb\<close>, not a field
  default of the records.)
\<close>

theorem default_hWstrb_zero:
  "hWstrb MCMD_default = 0 \<and> hWstrb ICMD_default = 0"
  by (simp add: MCMD_default_def ICMD_default_def)

section \<open>Interconnect: master-id tagging\<close>

text \<open>
  Claim C5, as stated, for the manager with interconnect id 0 presenting \<open>hMaster = 16\<close>:
  the forwarded \<open>hMaster\<close> would be \<open>(0 << 4) | (16 & 0xF) = 0\<close>. The code forwards 16.
\<close>

theorem master_id_tagging_unmasked:
  "hMaster (proc_cmd_sub_cmd 0 (MCMD_default\<lparr>hMaster := 16\<rparr>)) \<noteq> (push_bit 4 0 OR (16 AND 15))"
  by (simp add: proc_cmd_sub_cmd_def change_manager_id_def MCMD_default_def MCMD.defs ICMD.defs)

text \<open>
  Claim C5, amended: the command queued at the arbiter has \<open>hMaster\<close> rewritten to
  \<open>(interconnect_id(m) << 4) | hMaster\<close>, the manager's \<open>hMaster\<close> entering unmasked; this
  is \<open>(interconnect_id(m) << 4) | (hMaster & 0xF)\<close> whenever the manager's \<open>hMaster\<close> is in
  \<open>[0, 16)\<close>. Every other command field is unchanged and \<open>hSel\<close> is \<open>Sel\<close>.
\<close>

theorem master_id_tagging:
  "hMaster (proc_cmd_sub_cmd m_id cmd) = (push_bit 4 m_id OR hMaster cmd) \<and>
   (0 \<le> hMaster cmd \<and> hMaster cmd < 16 \<longrightarrow>
      hMaster (proc_cmd_sub_cmd m_id cmd) = (push_bit 4 m_id OR (hMaster cmd AND 15))) \<and>
   hAddr (proc_cmd_sub_cmd m_id cmd) = hAddr cmd \<and>
   hBurst (proc_cmd_sub_cmd m_id cmd) = hBurst cmd \<and>
   hMastlock (proc_cmd_sub_cmd m_id cmd) = hMastlock cmd \<and>
   hProt (proc_cmd_sub_cmd m_id cmd) = hProt cmd \<and>
   hSize (proc_cmd_sub_cmd m_id cmd) = hSize cmd \<and>
   hNonsec (proc_cmd_sub_cmd m_id cmd) = hNonsec cmd \<and>
   hExcl (proc_cmd_sub_cmd m_id cmd) = hExcl cmd \<and>
   hTrans (proc_cmd_sub_cmd m_id cmd) = hTrans cmd \<and>
   hWstrb (proc_cmd_sub_cmd m_id cmd) = hWstrb cmd \<and>
   hWrite (proc_cmd_sub_cmd m_id cmd) = hWrite cmd \<and>
   hSel (proc_cmd_sub_cmd m_id cmd) = Sel"
proof -
  have low_nibble: "0 \<le> hMaster cmd \<Longrightarrow> hMaster cmd < 16 \<Longrightarrow> hMaster cmd AND 15 = hMaster cmd"
    using take_bit_int_eq_self [of "hMaster cmd" 4]
    by (simp add: take_bit_eq_mask mask_eq_exp_minus_1)
  show ?thesis
    using low_nibble
    by (simp add: proc_cmd_sub_cmd_def change_manager_id_def MCMD.defs ICMD.defs)
qed

text \<open>Manager 2 presenting \<open>hMaster = 3\<close> is forwarded as \<open>0x23\<close>.\<close>

theorem master_id_tagging_witness:
  "(0::int) \<le> 3 \<and> (3::int) < 16 \<and>
   hMaster (proc_cmd_sub_cmd 2 (MCMD_default\<lparr>hMaster := 3\<rparr>)) = 35 \<and>
   hMaster (proc_cmd_sub_cmd 2 (MCMD_default\<lparr>hMaster := 3\<rparr>)) = (push_bit 4 2 OR (3 AND 15)) \<and>
   hSel (proc_cmd_sub_cmd 2 (MCMD_default\<lparr>hMaster := 3\<rparr>)) = Sel"
  using master_id_tagging [of 2 "MCMD_default\<lparr>hMaster := 3\<rparr>"]
  by (simp add: MCMD_default_def)

section \<open>Memory subordinate: the 1 KiB check of a fixed-length incrementing burst\<close>

text \<open>
  Claim C4 does not hold of \<open>_check_fix_incr\<close>. An \<open>Incr8\<close> burst of words that starts at
  \<open>0x3C4\<close> has its last beat at \<open>0x3C4 + 7 * 4 = 0x3E0\<close>, in the same 1 KiB region, yet the
  check raises, both called directly and through \<open>put_cmd\<close> on a ready subordinate with
  the burst tracker enabled: the branch for \<open>Incr8\<close> tests \<open>Incr4\<close> a second time, so the
  length 16 of the \<open>else\<close> branch is used.
\<close>

theorem incr8_boundary_check_raises:
  "check_fix_incr 964 Incr8 Word = Inl BurstCrosses1KB \<and>
   (964 + (8 - 1) * 2 ^ HSIZE_val Word) div 1024 = (964::int) div 1024 \<and>
   put_cmd (ICMD_default\<lparr>hAddr := 964, hBurst := Incr8, hSize := Word, hTrans := NonSeq,
                         hSel := Sel\<rparr>) burst_subordinate = Inl BurstCrosses1KB"
  by (simp add: check_fix_incr_def burst_subordinate_def put_cmd_def put_cmd_input_def set_ready_def
      is_ready_def init_state_def ICMD_default_def burst_check.simps check_not_bursting_def)

section \<open>Memory subordinate: burst tracker\<close>

lemma burst_check_NonSeq:
  "burst_check s a b S NonSeq w p = check_not_bursting (s\<lparr>bursting := False\<rparr>) a b S NonSeq w p"
proof (cases "bursting s")
  case True
  then show ?thesis
    by (simp add: burst_check.simps [of s] burst_check.simps [of "s\<lparr>bursting := False\<rparr>"])
next
  case False
  then have eq: "s\<lparr>bursting := False\<rparr> = s" by simp
  show ?thesis
    by (subst eq) (simp add: burst_check.simps [of s] False)
qed

lemma and_not_pow2_minus_1:
  "(x::int) AND NOT (2 ^ m - 1) = x - x mod 2 ^ m"
proof -
  have "x AND NOT (mask m) = push_bit m (drop_bit m x)"
    by (rule bit_eqI) (auto simp: bit_simps)
  then show ?thesis
    by (simp add: mask_eq_exp_minus_1 push_bit_eq_mult drop_bit_eq_div minus_mod_eq_mult_div)
qed

lemma wrap_beat_0_pow2: "wrap_beat addr S N 0 = addr" if "int N * 2 ^ HSIZE_val S = 2 ^ m"
  using that by (simp add: wrap_beat_def and_not_pow2_minus_1)

lemma burst_beats_Some:
  "burst_beats b = Some N \<Longrightarrow>
     (b = Incr4 \<and> N = 4) \<or> (b = Wrap4 \<and> N = 4) \<or> (b = Incr8 \<and> N = 8) \<or>
     (b = Wrap8 \<and> N = 8) \<or> (b = Incr16 \<and> N = 16) \<or> (b = Wrap16 \<and> N = 16)"
  by (cases b) auto

lemma wrap_beat_0:
  assumes "burst_beats b = Some N"
  shows "wrap_beat addr S N 0 = addr"
proof -
  have "N = 4 \<or> N = 8 \<or> N = 16"
    using burst_beats_Some [OF assms] by auto
  then consider "int N * 2 ^ HSIZE_val S = 2 ^ (HSIZE_val S + 2)"
    | "int N * 2 ^ HSIZE_val S = 2 ^ (HSIZE_val S + 3)"
    | "int N * 2 ^ HSIZE_val S = 2 ^ (HSIZE_val S + 4)"
    by (auto simp: power_add)
  then show ?thesis
    by cases (rule wrap_beat_0_pow2, assumption)+
qed

lemma fixed_burst_addresses:
  assumes bb: "burst_beats b = Some N"
    and ok: "burst_check s addr b S NonSeq w p = Inr s'"
  shows "bursting_addresses s' = map (beat_law b addr S N) [1..<N]"
proof -
  have d: "drop (Suc 0) (map f [0..<n]) = map f [Suc 0..<n]" for f :: "nat \<Rightarrow> int" and n
    by (simp add: drop_map)
  from burst_beats_Some [OF bb] ok show ?thesis
    unfolding burst_check_NonSeq check_not_bursting_def
    by (auto simp: d beat_law_def incr_beat_def wrap_beat_def incr_addresses_def
        wrap_addresses_def Let_def split: sum.splits if_splits)
qed

lemma wrap_burst_accepted:
  assumes "b \<in> {Wrap4, Wrap8, Wrap16}"
  shows "\<exists>s'. burst_check s addr b S NonSeq w p = Inr s'"
  using assms unfolding burst_check_NonSeq check_not_bursting_def
  by (auto simp: Let_def)

lemma incr_burst_accepted_iff:
  assumes "b \<in> {Incr4, Incr8, Incr16}"
  shows "(\<exists>s'. burst_check s addr b S NonSeq w p = Inr s') \<longleftrightarrow> check_fix_incr addr b S = Inr ()"
  using assms unfolding burst_check_NonSeq check_not_bursting_def
  by (auto simp: Let_def split: sum.splits)

lemma incr_first_beat:
  "\<exists>s'. burst_check s addr Incr S NonSeq w p = Inr s' \<and>
     bursting s' \<and> incr_burst s' \<and> burst_size s' = S \<and>
     bursting_addresses s' = [addr + 2 ^ HSIZE_val S]"
  unfolding burst_check_NonSeq check_not_bursting_def by simp

lemma incr_seq_beat:
  assumes "bursting s" "incr_burst s" "bursting_addresses s = [nxt]"
    and ok: "burst_check s a b S Seq w p = Inr s'"
  shows "a = nxt \<and> bursting s' \<and> incr_burst s' \<and> burst_size s' = burst_size s \<and>
         bursting_addresses s' = [nxt + 2 ^ HSIZE_val (burst_size s)]"
  using assms by (auto simp: burst_check.simps [of s] split: if_splits)

text \<open>
  Claim C3 (burst address law). Let \<open>burst_check\<close> accept the first NonSeq beat of a burst
  at address \<open>addr\<close> with size \<open>S\<close>. For a fixed-length burst of \<open>N\<close> beats the tracker then
  holds the \<open>N - 1\<close> addresses of beats \<open>1 .. N-1\<close>, beat \<open>k\<close> being \<open>addr + k * 2^S\<close> for
  \<open>Incr-N\<close> and \<open>(addr & ~(N*2^S - 1)) + ((addr mod (N*2^S)) + k*2^S) mod (N*2^S)\<close> for
  \<open>Wrap-N\<close>, and the law gives \<open>addr\<close> itself for beat 0, the beat just accepted. A \<open>Wrap-N\<close>
  first beat is always accepted. For unbounded \<open>Incr\<close> the first beat is always accepted
  and leaves the single next pointer \<open>addr + 2^S\<close>; every accepted Seq beat is at the
  pointer and advances it by \<open>2^S\<close>.
\<close>

theorem burst_address_law:
  "(burst_beats b = Some N \<and> burst_check s addr b S NonSeq w p = Inr s' \<longrightarrow>
      length (bursting_addresses s') = N - 1 \<and>
      beat_law b addr S N 0 = addr \<and>
      (\<forall>k. 1 \<le> k \<and> k < N \<longrightarrow> bursting_addresses s' ! (k - 1) = beat_law b addr S N k)) \<and>
   (b \<in> {Wrap4, Wrap8, Wrap16} \<longrightarrow> (\<exists>t. burst_check s addr b S NonSeq w p = Inr t)) \<and>
   (\<exists>t. burst_check s addr Incr S NonSeq w p = Inr t \<and> bursting t \<and> incr_burst t \<and>
        burst_size t = S \<and> bursting_addresses t = [addr + 2 ^ HSIZE_val S]) \<and>
   (bursting s \<and> incr_burst s \<and> bursting_addresses s = [nxt] \<and>
    burst_check s a b' S' Seq w p = Inr s'' \<longrightarrow>
      a = nxt \<and> bursting s'' \<and> incr_burst s'' \<and> burst_size s'' = burst_size s \<and>
      bursting_addresses s'' = [nxt + 2 ^ HSIZE_val (burst_size s)])"
proof (intro conjI impI)
  assume h: "burst_beats b = Some N \<and> burst_check s addr b S NonSeq w p = Inr s'"
  then have l: "bursting_addresses s' = map (beat_law b addr S N) [1..<N]"
    using fixed_burst_addresses by blast
  show "length (bursting_addresses s') = N - 1" by (simp add: l)
  show "beat_law b addr S N 0 = addr"
    using h wrap_beat_0 [of b N addr S] by (simp add: beat_law_def incr_beat_def)
  show "\<forall>k. 1 \<le> k \<and> k < N \<longrightarrow> bursting_addresses s' ! (k - 1) = beat_law b addr S N k"
    by (auto simp: l)
next
  assume "b \<in> {Wrap4, Wrap8, Wrap16}"
  then show "\<exists>t. burst_check s addr b S NonSeq w p = Inr t"
    by (rule wrap_burst_accepted)
next
  show "\<exists>t. burst_check s addr Incr S NonSeq w p = Inr t \<and> bursting t \<and> incr_burst t \<and>
        burst_size t = S \<and> bursting_addresses t = [addr + 2 ^ HSIZE_val S]"
    by (rule incr_first_beat)
next
  assume h: "bursting s \<and> incr_burst s \<and> bursting_addresses s = [nxt] \<and>
    burst_check s a b' S' Seq w p = Inr s''"
  then show "a = nxt" "bursting s''" "incr_burst s''" "burst_size s'' = burst_size s"
    "bursting_addresses s'' = [nxt + 2 ^ HSIZE_val (burst_size s)]"
    using incr_seq_beat [of s nxt a b' S' w p s''] by simp_all
qed


lemma after_burst_check_Inr:
  "\<not> isl (burst_check s a b S tr Write HPROT_default) \<Longrightarrow>
     burst_check s a b S tr Write HPROT_default = Inr (after_burst_check s a b S tr)"
  by (cases "burst_check s a b S tr Write HPROT_default") (simp_all add: after_burst_check_def)

text \<open>
  A \<open>Wrap4\<close> burst of words from \<open>0x38\<close> expects \<open>0x3C, 0x30, 0x34\<close>; an \<open>Incr\<close> burst of
  words from \<open>0x100\<close> expects \<open>0x104\<close>, and after the Seq beat at \<open>0x104\<close> expects \<open>0x108\<close>.
\<close>

theorem burst_address_law_witness:
  "burst_beats Wrap4 = Some 4 \<and>
   burst_check burst_subordinate 56 Wrap4 Word NonSeq Write HPROT_default =
     Inr (after_burst_check burst_subordinate 56 Wrap4 Word NonSeq) \<and>
   bursting_addresses (after_burst_check burst_subordinate 56 Wrap4 Word NonSeq) ! 0 = 60 \<and>
   bursting_addresses (after_burst_check burst_subordinate 56 Wrap4 Word NonSeq) ! 1 = 48 \<and>
   bursting_addresses (after_burst_check burst_subordinate 56 Wrap4 Word NonSeq) ! 2 = 52 \<and>
   length (bursting_addresses (after_burst_check burst_subordinate 56 Wrap4 Word NonSeq)) = 3 \<and>
   Wrap4 \<in> {Wrap4, Wrap8, Wrap16} \<and>
   bursting (after_burst_check burst_subordinate 256 Incr Word NonSeq) \<and>
   incr_burst (after_burst_check burst_subordinate 256 Incr Word NonSeq) \<and>
   bursting_addresses (after_burst_check burst_subordinate 256 Incr Word NonSeq) = [260] \<and>
   burst_check (after_burst_check burst_subordinate 256 Incr Word NonSeq) 260 Incr Word Seq
       Write HPROT_default =
     Inr (after_burst_check (after_burst_check burst_subordinate 256 Incr Word NonSeq)
            260 Incr Word Seq) \<and>
   bursting_addresses (after_burst_check (after_burst_check burst_subordinate 256 Incr Word NonSeq)
            260 Incr Word Seq) = [264]"
proof -
  let ?w = "after_burst_check burst_subordinate 56 Wrap4 Word NonSeq"
  let ?u = "after_burst_check burst_subordinate 256 Incr Word NonSeq"
  let ?v = "after_burst_check ?u 260 Incr Word Seq"
  have bb: "burst_beats Wrap4 = Some 4" by simp
  have "\<not> isl (burst_check burst_subordinate 56 Wrap4 Word NonSeq Write HPROT_default)"
    by code_simp
  then have w: "burst_check burst_subordinate 56 Wrap4 Word NonSeq Write HPROT_default = Inr ?w"
    by (rule after_burst_check_Inr)
  have u: "bursting ?u" "incr_burst ?u" "bursting_addresses ?u = [260]" "burst_size ?u = Word"
    by code_simp+
  have "\<not> isl (burst_check ?u 260 Incr Word Seq Write HPROT_default)"
    by code_simp
  then have v: "burst_check ?u 260 Incr Word Seq Write HPROT_default = Inr ?v"
    by (rule after_burst_check_Inr)
  have val: "beat_law Wrap4 56 Word 4 1 = 60" "beat_law Wrap4 56 Word 4 2 = 48"
    "beat_law Wrap4 56 Word 4 3 = 52"
    by code_simp+
  note law = burst_address_law [where b = Wrap4 and N = 4 and s = burst_subordinate
      and addr = 56 and S = Word and w = Write and p = HPROT_default and s' = ?w]
  note law2 = burst_address_law [where s = ?u and nxt = 260 and a = 260 and b' = Incr
      and S' = Word and w = Write and p = HPROT_default and s'' = ?v]
  have c1: "burst_beats Wrap4 = Some 4 \<and>
      burst_check burst_subordinate 56 Wrap4 Word NonSeq Write HPROT_default = Inr ?w"
    by (intro conjI bb w)
  note r1 = law [THEN conjunct1, THEN mp, OF c1]
  have len: "length (bursting_addresses ?w) = 4 - 1"
    by (rule r1 [THEN conjunct1])
  have nth: "\<forall>k. 1 \<le> k \<and> k < 4 \<longrightarrow> bursting_addresses ?w ! (k - 1) = beat_law Wrap4 56 Word 4 k"
    by (rule r1 [THEN conjunct2, THEN conjunct2])
  have c2: "bursting ?u \<and> incr_burst ?u \<and> bursting_addresses ?u = [260] \<and>
      burst_check ?u 260 Incr Word Seq Write HPROT_default = Inr ?v"
    by (intro conjI u(1) u(2) u(3) v)
  note r2 = law2 [THEN conjunct2, THEN conjunct2, THEN conjunct2, THEN mp, OF c2]
  have nxt: "bursting_addresses ?v = [260 + 2 ^ HSIZE_val (burst_size ?u)]"
    by (rule r2 [THEN conjunct2, THEN conjunct2, THEN conjunct2, THEN conjunct2])
  from nth [rule_format, of 1] nth [rule_format, of 2] nth [rule_format, of 3] val
  have n: "bursting_addresses ?w ! 0 = 60" "bursting_addresses ?w ! 1 = 48"
    "bursting_addresses ?w ! 2 = 52"
    by simp_all
  have nv: "bursting_addresses ?v = [264]" by (simp only: nxt u(4)) simp
  have l3: "length (bursting_addresses ?w) = 3" by (simp add: len)
  show ?thesis
    by (intro conjI bb w n l3 u(1) u(2) u(3) v nv insertI1)
qed

section \<open>Memory subordinate: write application and read-back\<close>

lemma and_exp_eq_0: "(x::int) AND 2 ^ n = 0 \<longleftrightarrow> \<not> bit x n"
proof -
  have "x AND 2 ^ n = of_bool (bit x n) * 2 ^ n"
    by (rule bit_eqI) (auto simp: bit_simps)
  then show ?thesis by simp
qed

lemma process_write_byte_mem:
  "mem (process_write_byte i s) =
     (mem s)(int i + hAddr (wcommand s) := written_byte s i (mem s (int i + hAddr (wcommand s))))"
proof -
  define s1 where "s1 = (if exclusive_transfers s \<and> int i + hAddr (wcommand s) \<in> watched_addresses s
                then exclusive_trans_colision_update s (int i + hAddr (wcommand s)) else s)"
  have f: "mem s1 = mem s" "write_strobe s1 = write_strobe s" "wcommand s1 = wcommand s"
    "wdata s1 = wdata s"
    by (simp_all add: s1_def exclusive_trans_colision_update_def Let_def)
  show ?thesis
    unfolding process_write_byte_def Let_def exclusive_trans_colision_check_def
    apply (fold s1_def)
    apply (cases "write_modify s"; cases "strobe_on s i";
           cases "mem s (int i + hAddr (wcommand s))")
    by (auto simp: f written_byte_def write_modify_def strobe_on_def lane_byte_def
        write_offset_def and_exp_eq_0 domIff split: if_splits)
qed

lemma process_write_byte_keeps:
  "wcommand (process_write_byte i s) = wcommand s"
  "bus_byte_width (process_write_byte i s) = bus_byte_width s"
  "exclusive_transfers (process_write_byte i s) = exclusive_transfers s"
  "no_collision (process_write_byte i s) = no_collision s"
  "write_strobe (process_write_byte i s) = write_strobe s"
  "wdata (process_write_byte i s) = wdata s"
  "command (process_write_byte i s) = command s"
  "temp (process_write_byte i s) = temp s"
  "secure_transfer (process_write_byte i s) = secure_transfer s"
  "nonsec_read (process_write_byte i s) = nonsec_read s"
  "nonsec_write (process_write_byte i s) = nonsec_write s"
  "process_wdata_next_cycle (process_write_byte i s) = process_wdata_next_cycle s"
  by (simp_all add: process_write_byte_def exclusive_trans_colision_update_def Let_def)

lemma written_byte_cong:
  "wcommand t = wcommand s \<Longrightarrow> bus_byte_width t = bus_byte_width s \<Longrightarrow>
   exclusive_transfers t = exclusive_transfers s \<Longrightarrow> no_collision t = no_collision s \<Longrightarrow>
   write_strobe t = write_strobe s \<Longrightarrow> wdata t = wdata s \<Longrightarrow>
   written_byte t = written_byte s"
  by (simp add: fun_eq_iff written_byte_def write_modify_def strobe_on_def lane_byte_def
      write_offset_def)

lemma fold_process_write_byte_keeps:
  "wcommand (fold process_write_byte xs s) = wcommand s \<and>
   bus_byte_width (fold process_write_byte xs s) = bus_byte_width s \<and>
   exclusive_transfers (fold process_write_byte xs s) = exclusive_transfers s \<and>
   no_collision (fold process_write_byte xs s) = no_collision s \<and>
   write_strobe (fold process_write_byte xs s) = write_strobe s \<and>
   wdata (fold process_write_byte xs s) = wdata s \<and>
   command (fold process_write_byte xs s) = command s \<and>
   temp (fold process_write_byte xs s) = temp s \<and>
   secure_transfer (fold process_write_byte xs s) = secure_transfer s \<and>
   nonsec_read (fold process_write_byte xs s) = nonsec_read s \<and>
   nonsec_write (fold process_write_byte xs s) = nonsec_write s \<and>
   process_wdata_next_cycle (fold process_write_byte xs s) = process_wdata_next_cycle s"
  by (induction xs arbitrary: s) (simp_all add: process_write_byte_keeps)

lemma process_write_keeps:
  "wcommand (process_write s) = wcommand s"
  "bus_byte_width (process_write s) = bus_byte_width s"
  "exclusive_transfers (process_write s) = exclusive_transfers s"
  "no_collision (process_write s) = no_collision s"
  "write_strobe (process_write s) = write_strobe s"
  "wdata (process_write s) = wdata s"
  "command (process_write s) = command s"
  "temp (process_write s) = temp s"
  "secure_transfer (process_write s) = secure_transfer s"
  "nonsec_read (process_write s) = nonsec_read s"
  "nonsec_write (process_write s) = nonsec_write s"
  "\<not> process_wdata_next_cycle (process_write s)"
  by (simp_all add: process_write_def fold_process_write_byte_keeps)

lemma fold_process_write_byte_mem:
  "mem (fold process_write_byte [0..<n] s) a =
     (if hAddr (wcommand s) \<le> a \<and> a < hAddr (wcommand s) + int n
      then written_byte s (nat (a - hAddr (wcommand s))) (mem s a) else mem s a)"
proof (induction n)
  case 0
  show ?case by (cases "hAddr (wcommand s) \<le> a") simp_all
next
  case (Suc n)
  define t where "t = fold process_write_byte [0..<n] s"
  have k0: "wcommand t = wcommand s" "bus_byte_width t = bus_byte_width s"
    "exclusive_transfers t = exclusive_transfers s" "no_collision t = no_collision s"
    "write_strobe t = write_strobe s" "wdata t = wdata s"
    using fold_process_write_byte_keeps [of "[0..<n]" s] by (simp_all add: t_def)
  have k: "wcommand t = wcommand s" "written_byte t = written_byte s"
    by (rule k0(1), rule written_byte_cong [OF k0])
  have "mem (fold process_write_byte [0..<Suc n] s) a = mem (process_write_byte n t) a"
    by (simp add: t_def)
  also have "\<dots> = (if a = int n + hAddr (wcommand s)
                    then written_byte s n (mem t a) else mem t a)"
    by (simp add: process_write_byte_mem k)
  finally have step: "mem (fold process_write_byte [0..<Suc n] s) a =
      (if a = int n + hAddr (wcommand s) then written_byte s n (mem t a) else mem t a)" .
  show ?case
  proof (cases "a = int n + hAddr (wcommand s)")
    case True
    then have "mem t a = mem s a" "nat (a - hAddr (wcommand s)) = n"
      using Suc.IH by (simp_all add: t_def)
    with True step show ?thesis by simp
  next
    case False
    then have "(hAddr (wcommand s) \<le> a \<and> a < hAddr (wcommand s) + int (Suc n)) =
               (hAddr (wcommand s) \<le> a \<and> a < hAddr (wcommand s) + int n)"
      by auto
    with False step Suc.IH show ?thesis by (simp only: t_def) simp
  qed
qed

lemma process_write_mem:
  "mem (process_write s) a =
     (if hAddr (wcommand s) \<le> a \<and> a < hAddr (wcommand s) + 2 ^ HSIZE_val (hSize (wcommand s))
      then written_byte s (nat (a - hAddr (wcommand s))) (mem s a) else mem s a)"
proof -
  have "written_byte (s\<lparr>process_wdata_next_cycle := False\<rparr>) = written_byte s"
    by (rule written_byte_cong) simp_all
  then show ?thesis
    by (simp add: process_write_def fold_process_write_byte_mem)
qed


lemma fold_or_cong:
  assumes "\<And>i. i < n \<Longrightarrow> f i = g i"
  shows "fold (\<lambda>i acc. acc OR push_bit (8 * (i + k)) (f i)) [0..<n] (z::int) =
         fold (\<lambda>i acc. acc OR push_bit (8 * (i + k)) (g i)) [0..<n] z"
  by (rule List.fold_cong) (use assms in auto)

lemma read_after_write:
  assumes "\<not> exclusive_transfers s" "hRData (temp s) = 0"
    "hAddr (command s) = hAddr (wcommand s)" "hSize (command s) = hSize (wcommand s)"
  shows "read_hRData (process_write s) = merged_written_word s"
proof -
  have m: "write_modify s" using assms(1) by (simp add: write_modify_def)
  have b: "mem_read (mem (process_write s)) (int i + hAddr (wcommand s)) =
           (if strobe_on s i then lane_byte s i else mem_read (mem s) (int i + hAddr (wcommand s)))"
    if "i < 2 ^ HSIZE_val (hSize (wcommand s))" for i
  proof -
    have "int i < 2 ^ HSIZE_val (hSize (wcommand s))"
      using that by (metis of_nat_less_iff of_nat_numeral of_nat_power)
    then show ?thesis
      using m by (simp add: process_write_mem written_byte_def mem_read_def split: option.splits)
  qed
  have k: "command (process_write s) = command s" "temp (process_write s) = temp s"
    "bus_byte_width (process_write s) = bus_byte_width s"
    by (simp_all add: process_write_keeps)
  show ?thesis
    unfolding read_hRData_def merged_written_word_def Let_def k assms(2,3,4)
    unfolding write_offset_def [symmetric]
    by (rule fold_or_cong) (rule b)
qed

lemma masked_when_strobed_out_zero:
  assumes "\<And>i. i < 2 ^ HSIZE_val (hSize (wcommand s)) \<Longrightarrow> \<not> strobe_on s i \<Longrightarrow>
             mem_read (mem s) (int i + hAddr (wcommand s)) = 0"
  shows "merged_written_word s = masked_written_word s"
  unfolding merged_written_word_def masked_written_word_def
  by (rule fold_or_cong) (use assms in auto)

text \<open>
  Claim C2, amended. With exclusive transfers disabled, a write of size \<open>S\<close> at address \<open>A\<close>
  applied by \<open>process_write\<close> with the latched data word, followed by a read of size \<open>S\<close> at
  \<open>A\<close> (the read loop started from \<open>hRData = 0\<close>), gives the word that holds at lane
  \<open>(A mod bus_byte_width + i) * 8\<close> the written byte where byte \<open>i\<close> is strobed in (or
  strobes are disabled), and where it is strobed out the byte the store held before the
  write, zero if it was never written. When every strobed-out byte held zero or nothing,
  this is the written word masked by the write strobes.
\<close>

theorem write_read_round_trip:
  "\<not> exclusive_transfers s \<and> hRData (temp s) = 0 \<and>
   hAddr (command s) = hAddr (wcommand s) \<and> hSize (command s) = hSize (wcommand s) \<longrightarrow>
     read_hRData (process_write s) = merged_written_word s \<and>
     ((\<forall>i < 2 ^ HSIZE_val (hSize (wcommand s)).
          \<not> strobe_on s i \<longrightarrow> mem_read (mem s) (int i + hAddr (wcommand s)) = 0) \<longrightarrow>
        read_hRData (process_write s) = masked_written_word s)"
  using read_after_write [of s] masked_when_strobed_out_zero [of s] by auto

lemma final_state_Inr:
  "\<not> isl (run_ops ops s) \<Longrightarrow> run_ops ops s = Inr (final_state ops s)"
  by (cases "run_ops ops s") (simp_all add: final_state_def)

text \<open>
  Claim C2, as stated, fails on the sequence of the repository's write-strobe test: after
  the word \<open>0x55AA55AA\<close> has been written in full, the word write of \<open>0xAA55AA55\<close> with
  strobe \<open>0xA\<close> followed by a word read at the same address returns \<open>0xAAAAAAAA\<close> (the
  answer the test expects), while the written word masked by its strobes is \<open>0xAA00AA00\<close>.
\<close>

theorem strobed_out_bytes_keep_old_value:
  "\<not> isl (run_ops strobe_run strobe_subordinate) \<and>
   \<not> exclusive_transfers (final_state strobe_run strobe_subordinate) \<and>
   hRData (temp (final_state strobe_run strobe_subordinate)) = 0 \<and>
   hAddr (command (final_state strobe_run strobe_subordinate)) =
     hAddr (wcommand (final_state strobe_run strobe_subordinate)) \<and>
   hSize (command (final_state strobe_run strobe_subordinate)) =
     hSize (wcommand (final_state strobe_run strobe_subordinate)) \<and>
   read_hRData (process_write (final_state strobe_run strobe_subordinate)) = 2863311530 \<and>
   masked_written_word (final_state strobe_run strobe_subordinate) = 2852170240 \<and>
   read_hRData (process_write (final_state strobe_run strobe_subordinate)) \<noteq>
     masked_written_word (final_state strobe_run strobe_subordinate)"
  by code_simp

text \<open>
  Claim C1 does not hold of the code. On a subordinate with exclusive transfers enabled,
  an exclusive byte write without a reservation is followed by a plain (non-exclusive)
  byte write of \<open>0xCC\<close> to address 0 and a byte read of it. The claim gives
  \<open>memory[0] = 0xCC\<close>. In the code the plain write is skipped as well: the collision flag
  cleared by the failed exclusive write is still clear, the store has no entry at 0 and
  the read returns 0.
\<close>

theorem stale_flag_skips_plain_write:
  "\<not> isl (run_ops stale_flag_run excl_subordinate) \<and>
   mem (final_state stale_flag_run excl_subordinate) 0 = None \<and>
   hRData (resp (final_state stale_flag_run excl_subordinate)) = 0 \<and>
   hReadyOut (resp (final_state stale_flag_run excl_subordinate)) = Ready \<and>
   \<not> no_collision (final_state stale_flag_run excl_subordinate)"
  by code_simp

text \<open>
  Both parts at work: the strobed write over the fully written word, and the same write
  on a fresh store, where the read returns the masked word \<open>0xAA00AA00\<close>.
\<close>

theorem write_read_round_trip_witness:
  "\<not> exclusive_transfers (final_state strobe_run strobe_subordinate) \<and>
   hRData (temp (final_state strobe_run strobe_subordinate)) = 0 \<and>
   hAddr (command (final_state strobe_run strobe_subordinate)) =
     hAddr (wcommand (final_state strobe_run strobe_subordinate)) \<and>
   hSize (command (final_state strobe_run strobe_subordinate)) =
     hSize (wcommand (final_state strobe_run strobe_subordinate)) \<and>
   read_hRData (process_write (final_state strobe_run strobe_subordinate)) =
     merged_written_word (final_state strobe_run strobe_subordinate) \<and>
   merged_written_word (final_state strobe_run strobe_subordinate) = 2863311530 \<and>
   \<not> exclusive_transfers (final_state strobe_fresh_run strobe_subordinate) \<and>
   hRData (temp (final_state strobe_fresh_run strobe_subordinate)) = 0 \<and>
   hAddr (command (final_state strobe_fresh_run strobe_subordinate)) =
     hAddr (wcommand (final_state strobe_fresh_run strobe_subordinate)) \<and>
   hSize (command (final_state strobe_fresh_run strobe_subordinate)) =
     hSize (wcommand (final_state strobe_fresh_run strobe_subordinate)) \<and>
   read_hRData (process_write (final_state strobe_fresh_run strobe_subordinate)) =
     masked_written_word (final_state strobe_fresh_run strobe_subordinate) \<and>
   masked_written_word (final_state strobe_fresh_run strobe_subordinate) = 2852170240"
proof -
  let ?s = "final_state strobe_run strobe_subordinate"
  let ?f = "final_state strobe_fresh_run strobe_subordinate"
  have h: "\<not> exclusive_transfers ?s" "hRData (temp ?s) = 0"
    "hAddr (command ?s) = hAddr (wcommand ?s)" "hSize (command ?s) = hSize (wcommand ?s)"
    "merged_written_word ?s = 2863311530"
    by code_simp+
  have g: "\<not> exclusive_transfers ?f" "hRData (temp ?f) = 0"
    "hAddr (command ?f) = hAddr (wcommand ?f)" "hSize (command ?f) = hSize (wcommand ?f)"
    "masked_written_word ?f = 2852170240"
    by code_simp+
  have n: "(2::nat) ^ HSIZE_val (hSize (wcommand ?f)) = 4" by code_simp
  have z: "mem_read (mem ?f) (int 0 + hAddr (wcommand ?f)) = 0"
    "mem_read (mem ?f) (int 1 + hAddr (wcommand ?f)) = 0"
    "mem_read (mem ?f) (int 2 + hAddr (wcommand ?f)) = 0"
    "mem_read (mem ?f) (int 3 + hAddr (wcommand ?f)) = 0"
    by code_simp+
  have four: "i = 0 \<or> i = 1 \<or> i = 2 \<or> i = 3" if "i < 4" for i :: nat
    using that by arith
  have q: "\<forall>i < 2 ^ HSIZE_val (hSize (wcommand ?f)).
          \<not> strobe_on ?f i \<longrightarrow> mem_read (mem ?f) (int i + hAddr (wcommand ?f)) = 0"
    unfolding n using four z by blast
  note a = write_read_round_trip [where s = ?s, THEN mp,
      OF conjI [OF h(1) conjI [OF h(2) conjI [OF h(3) h(4)]]]]
  note b = write_read_round_trip [where s = ?f, THEN mp,
      OF conjI [OF g(1) conjI [OF g(2) conjI [OF g(3) g(4)]]]]
  have a1: "read_hRData (process_write ?s) = merged_written_word ?s"
    by (rule a [THEN conjunct1])
  have b1: "read_hRData (process_write ?f) = masked_written_word ?f"
    by (rule b [THEN conjunct2, THEN mp, OF q])
  show ?thesis
    by (intro conjI h g a1 b1)
qed

section \<open>Memory subordinate: secure filter\<close>

lemma secure_denied_process_write: "secure_denied (process_write s) = secure_denied s"
  by (simp add: secure_denied_def process_write_keeps)

lemma process_secure_transfer_frame:
  "mem (process_secure_transfer s) = mem s"
  "process_wdata_next_cycle (process_secure_transfer s) = process_wdata_next_cycle s"
  "temp (process_secure_transfer s) = temp s"
  "command (process_secure_transfer s) = command s"
  by (simp_all add: process_secure_transfer_def)

lemma process_secure_transfer_error:
  "secure_denied s \<Longrightarrow> error (process_secure_transfer s)"
  by (auto simp: process_secure_transfer_def secure_denied_def)

lemma process_exclusive_transfer_frame:
  "mem (process_exclusive_transfer s) = mem s"
  "process_wdata_next_cycle (process_exclusive_transfer s) = process_wdata_next_cycle s"
  "command (process_exclusive_transfer s) = command s"
  "error (process_exclusive_transfer s) = error s"
  by (simp_all add: process_exclusive_transfer_def Let_def)

lemma process_begin_frame:
  "mem (process_begin r1 s) = mem s"
  "process_wdata_next_cycle (process_begin r1 s) = process_wdata_next_cycle s"
  "command (process_begin r1 s) = command s"
  "hReadyOut (temp (process_begin r1 s)) = NotReady"
  "secure_denied (process_begin r1 s) = secure_denied s"
  by (simp_all add: process_begin_def Let_def secure_denied_def)

lemma process_mem: "mem (process r1 r2 s) = mem s"
  by (simp add: process_def Let_def process_secure_transfer_frame
      process_exclusive_transfer_frame process_begin_frame)

lemma process_pending:
  "process_wdata_next_cycle (process r1 r2 s) = process_wdata_next_cycle s"
  by (simp add: process_def Let_def process_secure_transfer_frame
      process_exclusive_transfer_frame process_begin_frame)

lemma process_denied:
  assumes "secure_denied s"
  shows "error (process r1 r2 s)" and "hReadyOut (temp (process r1 r2 s)) = NotReady"
proof -
  have e: "error (process_secure_transfer (process_begin r1 s))"
    using assms by (simp add: process_secure_transfer_error process_begin_frame)
  then have p: "process r1 r2 s = process_secure_transfer (process_begin r1 s)"
    by (simp add: process_def Let_def)
  show "error (process r1 r2 s)" using e by (simp add: p)
  show "hReadyOut (temp (process r1 r2 s)) = NotReady"
    by (simp add: p process_secure_transfer_frame process_begin_frame)
qed

lemma start_latch_frame:
  "mem (start_latch s) = mem s" "command (start_latch s) = command s"
  "hready (start_latch s) = hready s" "error (start_latch s) = error s"
  "wait_cycles (start_latch s) = wait_cycles s"
  "process_wdata_next_cycle (start_latch s) = process_wdata_next_cycle s"
  "secure_denied (start_latch s) = secure_denied s"
  "hResp (temp (start_latch s)) = hResp (temp s)"
  by (simp_all add: start_latch_def secure_denied_def Let_def)

lemma start_command_denied:
  assumes "hready s = Working" "hSel (command s) = Sel" "secure_denied s"
  shows "error (start_command False r1 r2 s)"
    and "wait_cycles (start_command False r1 r2 s) = 1"
    and "hResp (temp (start_command False r1 r2 s)) = Failed"
    and "hReadyOut (temp (start_command False r1 r2 s)) = NotReady"
    and "\<not> process_wdata_next_cycle (start_command False r1 r2 s)"
    and "mem (start_command False r1 r2 s) =
           mem (if process_wdata_next_cycle s then process_write s else s)"
proof -
  define s1 where "s1 = (if process_wdata_next_cycle s then process_write s else s)"
  define s2 where "s2 = process r1 r2 s1"
  have d: "secure_denied s1" using assms(3) by (simp add: s1_def secure_denied_process_write)
  have e: "error s2" unfolding s2_def using d by (rule process_denied)
  have r: "hReadyOut (temp s2) = NotReady" unfolding s2_def using d by (rule process_denied)
  have c: "start_command False r1 r2 s =
       s2\<lparr>wait_cycles := 1, temp := (temp s2)\<lparr>hRData := 0, hResp := Failed\<rparr>\<rparr>"
    using assms(1,2) e by (simp add: start_command_def is_ready_def Let_def s2_def s1_def)
  have p: "\<not> process_wdata_next_cycle s1" by (simp add: s1_def process_write_keeps)
  show "error (start_command False r1 r2 s)" using e by (simp add: c)
  show "wait_cycles (start_command False r1 r2 s) = 1" by (simp add: c)
  show "hResp (temp (start_command False r1 r2 s)) = Failed" by (simp add: c)
  show "hReadyOut (temp (start_command False r1 r2 s)) = NotReady" using r by (simp add: c)
  show "\<not> process_wdata_next_cycle (start_command False r1 r2 s)"
    using p by (simp add: c s2_def process_pending)
  show "mem (start_command False r1 r2 s) =
           mem (if process_wdata_next_cycle s then process_write s else s)"
    by (simp add: c s2_def process_mem s1_def)
qed

lemma start_latch_keeps:
  "wcommand (start_latch s) = wcommand s" "bus_byte_width (start_latch s) = bus_byte_width s"
  "exclusive_transfers (start_latch s) = exclusive_transfers s"
  "no_collision (start_latch s) = no_collision s" "write_strobe (start_latch s) = write_strobe s"
  "wdata (start_latch s) = wdata s"
  by (simp_all add: start_latch_def Let_def)

lemma process_write_latch: "mem (process_write (start_latch s)) = mem (process_write s)"
proof
  fix a
  have w: "written_byte (start_latch s) = written_byte s"
    by (rule written_byte_cong) (simp_all add: start_latch_keeps)
  show "mem (process_write (start_latch s)) a = mem (process_write s) a"
    by (simp add: process_write_mem w start_latch_keeps start_latch_frame)
qed

lemma do_reset_frame:
  "process_wdata_next_cycle (do_reset s) = process_wdata_next_cycle s"
  "\<not> error (do_reset s)" "wait_cycles (do_reset s) = 0" "mem (do_reset s) = Map.empty"
  "temp (do_reset s) = temp s"
  by (simp_all add: do_reset_def Let_def)

lemma start_response_blocked:
  "rst \<or> error s \<or> wait_cycles s \<noteq> 0 \<Longrightarrow> start_response rst s = s"
  by (auto simp: start_response_def)

lemma start_commit_frame:
  "mem (start_commit s) = mem s" "error (start_commit s) = error s"
  "process_wdata_next_cycle (start_commit s) = process_wdata_next_cycle s"
  "wait_cycles (start_commit s) = wait_cycles s - 1"
  "hResp (resp (start_commit s)) = hResp (temp s)"
  "hResp (temp (start_commit s)) = hResp (temp s)"
  "hReadyOut (resp (start_commit s)) = (if wait_cycles s = 0 then Ready else hReadyOut (temp s))"
  by (simp_all add: start_commit_def Let_def)

lemma denial_cycle:
  assumes "hready s = Working" "hSel (command s) = Sel" "secure_denied s"
  shows "hResp (resp (start_step False r1 r2 s)) = Failed"
    and "hReadyOut (resp (start_step False r1 r2 s)) = NotReady"
    and "hResp (temp (start_step False r1 r2 s)) = Failed"
    and "error (start_step False r1 r2 s)"
    and "wait_cycles (start_step False r1 r2 s) = 0"
    and "\<not> process_wdata_next_cycle (start_step False r1 r2 s)"
    and "mem (start_step False r1 r2 s) =
           mem (if process_wdata_next_cycle s then process_write s else s)"
proof -
  define c where "c = start_command False r1 r2 (start_latch s)"
  have a: "hready (start_latch s) = Working" "hSel (command (start_latch s)) = Sel"
    "secure_denied (start_latch s)"
    using assms by (simp_all add: start_latch_frame)
  note cd = start_command_denied [OF a, of r1 r2, folded c_def]
  have st: "start_step False r1 r2 s = start_commit c"
    using cd(1) by (simp add: start_step_def start_response_blocked c_def)
  show "hResp (resp (start_step False r1 r2 s)) = Failed" by (simp add: st start_commit_frame cd)
  show "hReadyOut (resp (start_step False r1 r2 s)) = NotReady"
    by (simp add: st start_commit_frame cd)
  show "hResp (temp (start_step False r1 r2 s)) = Failed" by (simp add: st start_commit_frame cd)
  show "error (start_step False r1 r2 s)" by (simp add: st start_commit_frame cd)
  show "wait_cycles (start_step False r1 r2 s) = 0" by (simp add: st start_commit_frame cd)
  show "\<not> process_wdata_next_cycle (start_step False r1 r2 s)"
    by (simp add: st start_commit_frame cd)
  show "mem (start_step False r1 r2 s) =
           mem (if process_wdata_next_cycle s then process_write s else s)"
    by (simp add: st start_commit_frame cd start_latch_frame process_write_latch)
qed

lemma held_step_facts:
  assumes "write_blocked s"
  shows "write_blocked (held_step c s)"
    and "mem (held_step c s) = mem s \<or> mem (held_step c s) = Map.empty"
    and "hResp (resp (held_step c s)) = hResp (temp s)"
    and "wait_cycles s = 0 \<Longrightarrow> hReadyOut (resp (held_step c s)) = Ready"
proof -
  obtain rst r1 r2 where c: "c = (rst, r1, r2)" by (cases c)
  define l where "l = start_latch (set_ready WaitState s)"
  have l: "\<not> process_wdata_next_cycle l" "error l \<or> wait_cycles l < 0" "mem l = mem s"
    "hready l = WaitState" "hResp (temp l) = hResp (temp s)" "wait_cycles l = wait_cycles s"
    using assms by (simp_all add: l_def write_blocked_def start_latch_frame set_ready_def)
  define k where "k = start_command rst r1 r2 l"
  have k_eq: "k = (if rst then do_reset l else l)"
    by (simp add: k_def start_command_def is_ready_def l(4))
  have k: "\<not> process_wdata_next_cycle k" "rst \<or> error k \<or> wait_cycles k < 0"
    "mem k = mem s \<or> mem k = Map.empty" "hResp (temp k) = hResp (temp s)"
    "wait_cycles s = 0 \<Longrightarrow> wait_cycles k = 0"
    "rst \<Longrightarrow> wait_cycles k = 0 \<and> \<not> error k"
    using l by (auto simp: k_eq do_reset_frame)
  have r: "start_response rst k = k"
    using k(2) by (auto simp: start_response_blocked)
  have h: "held_step c s = start_commit k"
    using r by (simp add: held_step_def c start_step_def k_def l_def)
  show "write_blocked (held_step c s)"
    using k by (auto simp: h write_blocked_def start_commit_frame)
  show "mem (held_step c s) = mem s \<or> mem (held_step c s) = Map.empty"
    using k(3) by (simp add: h start_commit_frame)
  show "hResp (resp (held_step c s)) = hResp (temp s)"
    by (simp add: h start_commit_frame k)
  show "hReadyOut (resp (held_step c s)) = Ready" if "wait_cycles s = 0"
    using k(5) [OF that] by (simp add: h start_commit_frame)
qed

lemma held_cycles_blocked:
  "write_blocked s \<Longrightarrow>
     \<not> process_wdata_next_cycle (held_cycles cs s) \<and>
     (mem (held_cycles cs s) = mem s \<or> mem (held_cycles cs s) = Map.empty)"
proof (induction cs arbitrary: s)
  case Nil
  then show ?case by (simp add: held_cycles_def write_blocked_def)
next
  case (Cons c cs)
  have b: "write_blocked (held_step c s)" using Cons.prems by (rule held_step_facts)
  have m: "mem (held_step c s) = mem s \<or> mem (held_step c s) = Map.empty"
    using Cons.prems by (rule held_step_facts)
  have e: "held_cycles (c # cs) s = held_cycles cs (held_step c s)"
    by (simp add: held_cycles_def)
  from Cons.IH [OF b]
  have p: "\<not> process_wdata_next_cycle (held_cycles cs (held_step c s))"
    and q: "mem (held_cycles cs (held_step c s)) = mem (held_step c s) \<or>
            mem (held_cycles cs (held_step c s)) = Map.empty"
    by simp_all
  from q m have "mem (held_cycles cs (held_step c s)) = mem s \<or>
            mem (held_cycles cs (held_step c s)) = Map.empty"
    by (elim disjE) simp_all
  with p show ?case by (simp only: e) simp
qed

text \<open>
  Claim C6 (secure filter). Let the secure filter be enabled and let the subordinate,
  ready and selected, process a latched non-secure command that is neither Idle nor Busy
  and whose direction is not permitted (a read with \<open>nonsec_read = false\<close>, or a write
  with \<open>nonsec_write = false\<close>). Then the response of that cycle has \<open>hResp = Failed\<close>;
  \<open>process\<close> leaves the store as it is, and over the cycle the store changes only by the
  write latched before this command, if one was pending; no write is scheduled for the
  command, and none becomes scheduled in any number of following cycles in which the
  subordinate is held in a wait state, during which the store stays as it was or is
  emptied by a reset. So the data of a denied write is never applied.
\<close>

theorem secure_filter_denial:
  "hready s = Working \<and> hSel (command s) = Sel \<and> secure_denied s \<longrightarrow>
     hResp (resp (start_step False r1 r2 s)) = Failed \<and>
     mem (process r1 r2 s) = mem s \<and>
     mem (start_step False r1 r2 s) =
       mem (if process_wdata_next_cycle s then process_write s else s) \<and>
     \<not> process_wdata_next_cycle (held_cycles cs (start_step False r1 r2 s)) \<and>
     (mem (held_cycles cs (start_step False r1 r2 s)) = mem (start_step False r1 r2 s) \<or>
      mem (held_cycles cs (start_step False r1 r2 s)) = Map.empty)"
proof
  assume h: "hready s = Working \<and> hSel (command s) = Sel \<and> secure_denied s"
  then have a: "hready s = Working" "hSel (command s) = Sel" "secure_denied s" by simp_all
  note d = denial_cycle [OF a, of r1 r2]
  have b: "write_blocked (start_step False r1 r2 s)"
    using d by (simp add: write_blocked_def)
  note hb = held_cycles_blocked [OF b, of cs]
  show "hResp (resp (start_step False r1 r2 s)) = Failed \<and>
     mem (process r1 r2 s) = mem s \<and>
     mem (start_step False r1 r2 s) =
       mem (if process_wdata_next_cycle s then process_write s else s) \<and>
     \<not> process_wdata_next_cycle (held_cycles cs (start_step False r1 r2 s)) \<and>
     (mem (held_cycles cs (start_step False r1 r2 s)) = mem (start_step False r1 r2 s) \<or>
      mem (held_cycles cs (start_step False r1 r2 s)) = Map.empty)"
  proof (intro conjI)
    show "hResp (resp (start_step False r1 r2 s)) = Failed" by (rule d(1))
    show "mem (process r1 r2 s) = mem s" by (rule process_mem)
    show "mem (start_step False r1 r2 s) =
       mem (if process_wdata_next_cycle s then process_write s else s)" by (rule d(7))
    show "\<not> process_wdata_next_cycle (held_cycles cs (start_step False r1 r2 s))"
      using hb by (rule conjunct1)
    show "mem (held_cycles cs (start_step False r1 r2 s)) = mem (start_step False r1 r2 s) \<or>
      mem (held_cycles cs (start_step False r1 r2 s)) = Map.empty"
      using hb by (rule conjunct2)
  qed
qed

text \<open>
  A non-secure word write and a non-secure word read on a subordinate that permits
  neither.
\<close>

theorem secure_filter_denial_witness:
  "hready denied_write_state = Working \<and> hSel (command denied_write_state) = Sel \<and>
   secure_denied denied_write_state \<and> hWrite (command denied_write_state) = Write \<and>
   hResp (resp (start_step False 3 0 denied_write_state)) = Failed \<and>
   mem (start_step False 3 0 denied_write_state) = mem denied_write_state \<and>
   \<not> process_wdata_next_cycle
       (held_cycles [(False, 0, 0), (False, 0, 0)] (start_step False 3 0 denied_write_state)) \<and>
   hready denied_read_state = Working \<and> hSel (command denied_read_state) = Sel \<and>
   secure_denied denied_read_state \<and> hWrite (command denied_read_state) = Read \<and>
   hResp (resp (start_step False 3 0 denied_read_state)) = Failed \<and>
   mem (start_step False 3 0 denied_read_state) = mem denied_read_state"
proof -
  have h: "hready denied_write_state = Working" "hSel (command denied_write_state) = Sel"
    "secure_denied denied_write_state" "hWrite (command denied_write_state) = Write"
    "hready denied_read_state = Working" "hSel (command denied_read_state) = Sel"
    "secure_denied denied_read_state" "hWrite (command denied_read_state) = Read"
    "\<not> process_wdata_next_cycle denied_write_state"
    "\<not> process_wdata_next_cycle denied_read_state"
    by code_simp+
  note w = secure_filter_denial [where s = denied_write_state and ?r1.0 = 3 and ?r2.0 = 0
      and cs = "[(False, 0, 0), (False, 0, 0)]", THEN mp, OF conjI [OF h(1) conjI [OF h(2) h(3)]]]
  note r = secure_filter_denial [where s = denied_read_state and ?r1.0 = 3 and ?r2.0 = 0
      and cs = "[]", THEN mp, OF conjI [OF h(5) conjI [OF h(6) h(7)]]]
  have w1: "hResp (resp (start_step False 3 0 denied_write_state)) = Failed"
    by (rule w [THEN conjunct1])
  have w2: "mem (start_step False 3 0 denied_write_state) = mem denied_write_state"
    using w [THEN conjunct2, THEN conjunct2, THEN conjunct1] h(9) by simp
  have w3: "\<not> process_wdata_next_cycle
       (held_cycles [(False, 0, 0), (False, 0, 0)] (start_step False 3 0 denied_write_state))"
    by (rule w [THEN conjunct2, THEN conjunct2, THEN conjunct2, THEN conjunct1])
  have r1: "hResp (resp (start_step False 3 0 denied_read_state)) = Failed"
    by (rule r [THEN conjunct1])
  have r2: "mem (start_step False 3 0 denied_read_state) = mem denied_read_state"
    using r [THEN conjunct2, THEN conjunct2, THEN conjunct1] h(10) by simp
  show ?thesis
    by (intro conjI h(1-8) w1 w2 w3 r1 r2)
qed

section \<open>Error responses take two cycles\<close>

lemma default_failed_cycle:
  assumes "d_hready s = Working" "hSel (d_command s) = Sel" "hTrans (d_command s) \<in> {NonSeq, Seq}"
  shows "hResp (d_resp (d_start_step False s)) = Failed"
    and "hReadyOut (d_resp (d_start_step False s)) = NotReady"
    and "hResp (d_resp (d_start_step rst (d_set_ready WaitState (d_start_step False s)))) = Failed"
    and "hReadyOut (d_resp (d_start_step rst (d_set_ready WaitState (d_start_step False s)))) = Ready"
  using assms
  by (auto simp: d_start_step_def d_process_def d_is_ready_def d_set_ready_def d_do_reset_def
      Let_def)

lemma default_idle_cycle:
  assumes "d_hready s = Working" "hSel (d_command s) = Sel" "hTrans (d_command s) \<in> {Idle, Busy}"
  shows "d_wait_cycles (d_process s) = 0"
    and "hResp (d_resp (d_start_step False s)) = Successful"
    and "hReadyOut (d_resp (d_start_step False s)) = Ready"
  using assms
  by (auto simp: d_start_step_def d_process_def d_is_ready_def Let_def)

lemma memory_denial_two_cycles:
  assumes "hready m = Working" "hSel (command m) = Sel" "secure_denied m"
  shows "hResp (resp (start_step False r1 r2 m)) = Failed"
    and "hReadyOut (resp (start_step False r1 r2 m)) = NotReady"
    and "hResp (resp (held_step c (start_step False r1 r2 m))) = Failed"
    and "hReadyOut (resp (held_step c (start_step False r1 r2 m))) = Ready"
proof -
  note d = denial_cycle [OF assms, of r1 r2]
  have b: "write_blocked (start_step False r1 r2 m)"
    using d by (simp add: write_blocked_def)
  show "hResp (resp (start_step False r1 r2 m)) = Failed" by (rule d(1))
  show "hReadyOut (resp (start_step False r1 r2 m)) = NotReady" by (rule d(2))
  show "hResp (resp (held_step c (start_step False r1 r2 m))) = Failed"
    using held_step_facts(3) [OF b, of c] d(3) by simp
  show "hReadyOut (resp (held_step c (start_step False r1 r2 m))) = Ready"
    using held_step_facts(4) [OF b d(5), of c] by simp
qed

text \<open>
  Claim C8 (two-cycle error termination). When the default subordinate, ready and
  selected, processes a NonSeq or Seq command, and when the memory subordinate, ready and
  selected, processes a command its secure filter denies, the response of that cycle is
  \<open>Failed\<close> with \<open>hReadyOut = NotReady\<close>, and the response of the next cycle, in which the
  subordinate is held in a wait state as the interconnect does after a not-ready
  response, is \<open>Failed\<close> with \<open>hReadyOut = Ready\<close>. For an Idle or Busy command the default
  subordinate sets zero wait cycles and responds \<open>Successful\<close> and \<open>Ready\<close> in the same
  cycle.
\<close>

theorem two_cycle_error_termination:
  "(d_hready s = Working \<and> hSel (d_command s) = Sel \<and> hTrans (d_command s) \<in> {NonSeq, Seq} \<longrightarrow>
      hResp (d_resp (d_start_step False s)) = Failed \<and>
      hReadyOut (d_resp (d_start_step False s)) = NotReady \<and>
      hResp (d_resp (d_start_step rst (d_set_ready WaitState (d_start_step False s)))) = Failed \<and>
      hReadyOut (d_resp (d_start_step rst (d_set_ready WaitState (d_start_step False s)))) = Ready) \<and>
   (d_hready s = Working \<and> hSel (d_command s) = Sel \<and> hTrans (d_command s) \<in> {Idle, Busy} \<longrightarrow>
      d_wait_cycles (d_process s) = 0 \<and>
      hResp (d_resp (d_start_step False s)) = Successful \<and>
      hReadyOut (d_resp (d_start_step False s)) = Ready) \<and>
   (hready m = Working \<and> hSel (command m) = Sel \<and> secure_denied m \<longrightarrow>
      hResp (resp (start_step False r1 r2 m)) = Failed \<and>
      hReadyOut (resp (start_step False r1 r2 m)) = NotReady \<and>
      hResp (resp (held_step c (start_step False r1 r2 m))) = Failed \<and>
      hReadyOut (resp (held_step c (start_step False r1 r2 m))) = Ready)"
  by (intro conjI impI; elim conjE;
      (rule default_failed_cycle default_idle_cycle memory_denial_two_cycles; assumption))

text \<open>
  The default subordinate with a NonSeq and with an Idle command, and the secure memory
  subordinate with a non-secure read, over two cycles.
\<close>

theorem two_cycle_error_termination_witness:
  "d_hready (default_with NonSeq) = Working \<and> hSel (d_command (default_with NonSeq)) = Sel \<and>
   hTrans (d_command (default_with NonSeq)) \<in> {NonSeq, Seq} \<and>
   d_resp (d_start_step False (default_with NonSeq)) =
     \<lparr>hResp = Failed, hReadyOut = NotReady, hExOkay = ExFailed, hRData = 0\<rparr> \<and>
   d_resp (d_start_step False (d_set_ready WaitState (d_start_step False (default_with NonSeq)))) =
     \<lparr>hResp = Failed, hReadyOut = Ready, hExOkay = ExFailed, hRData = 0\<rparr> \<and>
   d_hready (default_with Idle) = Working \<and> hSel (d_command (default_with Idle)) = Sel \<and>
   hTrans (d_command (default_with Idle)) \<in> {Idle, Busy} \<and>
   d_resp (d_start_step False (default_with Idle)) =
     \<lparr>hResp = Successful, hReadyOut = Ready, hExOkay = ExFailed, hRData = 0\<rparr> \<and>
   hready denied_read_state = Working \<and> hSel (command denied_read_state) = Sel \<and>
   secure_denied denied_read_state \<and>
   resp (start_step False 7 0 denied_read_state) =
     \<lparr>hResp = Failed, hReadyOut = NotReady, hExOkay = ExFailed, hRData = 0\<rparr> \<and>
   resp (held_step (False, 0, 0) (start_step False 7 0 denied_read_state)) =
     \<lparr>hResp = Failed, hReadyOut = Ready, hExOkay = ExFailed, hRData = 0\<rparr>"
proof -
  have h: "d_hready (default_with NonSeq) = Working" "hSel (d_command (default_with NonSeq)) = Sel"
    "hTrans (d_command (default_with NonSeq)) \<in> {NonSeq, Seq}"
    "d_hready (default_with Idle) = Working" "hSel (d_command (default_with Idle)) = Sel"
    "hTrans (d_command (default_with Idle)) \<in> {Idle, Busy}"
    "hready denied_read_state = Working" "hSel (command denied_read_state) = Sel"
    "secure_denied denied_read_state"
    by code_simp+
  have e: "hExOkay (d_resp (d_start_step False (default_with NonSeq))) = ExFailed"
    "hRData (d_resp (d_start_step False (default_with NonSeq))) = 0"
    "hExOkay (d_resp (d_start_step False (d_set_ready WaitState
        (d_start_step False (default_with NonSeq))))) = ExFailed"
    "hRData (d_resp (d_start_step False (d_set_ready WaitState
        (d_start_step False (default_with NonSeq))))) = 0"
    "hExOkay (d_resp (d_start_step False (default_with Idle))) = ExFailed"
    "hRData (d_resp (d_start_step False (default_with Idle))) = 0"
    "hExOkay (resp (start_step False 7 0 denied_read_state)) = ExFailed"
    "hRData (resp (start_step False 7 0 denied_read_state)) = 0"
    "hExOkay (resp (held_step (False, 0, 0) (start_step False 7 0 denied_read_state))) = ExFailed"
    "hRData (resp (held_step (False, 0, 0) (start_step False 7 0 denied_read_state))) = 0"
    by code_simp+
  have eq: "r = \<lparr>hResp = a, hReadyOut = b, hExOkay = c, hRData = d\<rparr>"
    if "hResp r = a" "hReadyOut r = b" "hExOkay r = c" "hRData r = d" for r :: SRESP and a b c d
    using that by (cases r) simp
  from two_cycle_error_termination
    [of "default_with NonSeq" False "denied_read_state" 7 0 "(False, 0, 0)"]
    two_cycle_error_termination [of "default_with Idle" False "denied_read_state" 7 0 "(False, 0, 0)"]
    h e
  show ?thesis by (auto intro!: eq)
qed

section \<open>Memory subordinate: exclusive monitor\<close>

lemma reservations_watched_cong:
  "watched_addresses t = watched_addresses s \<Longrightarrow> transaction_set t = transaction_set s \<Longrightarrow>
   reservations_watched t = reservations_watched s"
  by (simp add: reservations_watched_def)

lemma check_not_bursting_monitor:
  "check_not_bursting s a b S tr w p = Inr s' \<Longrightarrow>
     watched_addresses s' = watched_addresses s \<and> transaction_set s' = transaction_set s"
  unfolding check_not_bursting_def
  by (auto simp: Let_def split: sum.splits if_splits option.splits)

lemma burst_check_monitor:
  "burst_check s a b S tr w p = Inr s' \<Longrightarrow>
     watched_addresses s' = watched_addresses s \<and> transaction_set s' = transaction_set s"
proof (induction s a b S tr w p rule: burst_check.induct)
  case (1 s a b S tr w p)
  show ?case
  proof (cases "\<not> bursting s \<and> tr = NonSeq")
    case True
    with "1.prems" show ?thesis
      by (simp add: burst_check.simps [of s] check_not_bursting_monitor)
  next
    case nf: False
    show ?thesis
    proof (cases "bursting s")
      case b: True
      show ?thesis
      proof (cases "tr \<in> set [Idle, NonSeq]")
        case True
        with nf b "1.prems"
        have "burst_check (s\<lparr>bursting := False\<rparr>) a b S tr w p = Inr s'"
          by (simp add: burst_check.simps [of s])
        from "1.IH" [OF nf b True this] show ?thesis by simp
      next
        case False
        with nf b "1.prems" show ?thesis
          by (auto simp: burst_check.simps [of s] Let_def split: if_splits list.splits)
      qed
    next
      case False
      with nf "1.prems" show ?thesis
        by (auto simp: burst_check.simps [of s] split: if_splits)
    qed
  qed
qed

lemma put_cmd_monitor:
  assumes "put_cmd cmd s = Inr s'"
  shows "watched_addresses s' = watched_addresses s \<and> transaction_set s' = transaction_set s"
proof -
  define s1 where "s1 = s\<lparr>input := put_cmd_input cmd s\<rparr>"
  define s2 where "s2 = s1\<lparr>command := input s1\<rparr>"
  have m2: "watched_addresses s2 = watched_addresses s" "transaction_set s2 = transaction_set s"
    "watched_addresses s1 = watched_addresses s" "transaction_set s1 = transaction_set s"
    by (simp_all add: s1_def s2_def)
  have p: "put_cmd cmd s =
     (if \<not> is_ready s1 then Inr s1
      else if hSel cmd = Sel then
        (if hAddr cmd mod 2 ^ HSIZE_val (hSize cmd) \<noteq> 0 then Inl UnalignedAddress
         else if bus_byte_width s2 < 2 ^ HSIZE_val (hSize cmd) then Inl SizeExceedsBus
         else
           (case (if burst s2
                  then burst_check s2 (hAddr (command s2)) (hBurst cmd) (hSize cmd)
                         (hTrans cmd) (hWrite cmd) (hProt cmd)
                  else Inr s2) of
              Inl e \<Rightarrow> Inl e
            | Inr s3 \<Rightarrow>
                if exclusive_transfers s3 then
                  (case exclusive_check s3 (hAddr (command s3)) (hSize cmd) (hProt cmd)
                          (if burst s3 then hBurst cmd else Single) (hMaster cmd)
                          (hNonsec cmd) (hExcl cmd) (hTrans cmd) (hWrite cmd) of
                     Inl e \<Rightarrow> Inl e
                   | Inr _ \<Rightarrow> Inr s3)
                else Inr s3))
      else Inr s2)"
    unfolding put_cmd_def Let_def s2_def s1_def ..
  have "s' = s1 \<or> s' = s2 \<or> (\<exists>a b S tr w pp. burst_check s2 a b S tr w pp = Inr s')"
    using assms unfolding p by (auto split: if_splits sum.splits)
  then show ?thesis
  proof (elim disjE exE)
    assume "s' = s1"
    then show ?thesis by (simp add: m2)
  next
    assume "s' = s2"
    then show ?thesis by (simp add: m2)
  next
    fix a b S tr w pp
    assume "burst_check s2 a b S tr w pp = Inr s'"
    from burst_check_monitor [OF this] show ?thesis by (simp add: m2)
  qed
qed

lemma process_exclusive_transfer_watched:
  "reservations_watched s \<Longrightarrow> reservations_watched (process_exclusive_transfer s)"
  by (auto simp: reservations_watched_def process_exclusive_transfer_def command_trans_id_def
      Let_def)

lemma process_watched:
  assumes "reservations_watched s"
  shows "reservations_watched (process r1 r2 s)"
proof -
  have b: "reservations_watched (process_secure_transfer (process_begin r1 s))"
    using assms
    by (simp add: reservations_watched_def process_secure_transfer_def process_begin_def Let_def)
  have w: "reservations_watched (t\<lparr>wait_cycles := n\<rparr>) = reservations_watched t" for t n
    by (simp add: reservations_watched_def)
  show ?thesis
    using b process_exclusive_transfer_watched [OF b]
    by (simp add: process_def Let_def w)
qed

lemma colision_update_watched:
  "reservations_watched s \<Longrightarrow> reservations_watched (exclusive_trans_colision_update s a)"
  by (auto simp: reservations_watched_def exclusive_trans_colision_update_def Let_def)

lemma process_write_byte_watched:
  assumes "reservations_watched s"
  shows "reservations_watched (process_write_byte i s)"
proof -
  define s1 where "s1 = (if exclusive_transfers s \<and> int i + hAddr (wcommand s) \<in> watched_addresses s
                then exclusive_trans_colision_update s (int i + hAddr (wcommand s)) else s)"
  have r: "reservations_watched s1"
    using assms by (simp add: s1_def colision_update_watched)
  have m: "reservations_watched (t\<lparr>mem := x\<rparr>) = reservations_watched t" for t x
    by (simp add: reservations_watched_def)
  show ?thesis
    unfolding process_write_byte_def Let_def
    apply (fold s1_def)
    using r by (simp add: m)
qed

lemma process_write_watched:
  assumes "reservations_watched s"
  shows "reservations_watched (process_write s)"
proof -
  have f: "reservations_watched t \<Longrightarrow> reservations_watched (fold process_write_byte xs t)"
    for xs t
    by (induction xs arbitrary: t) (simp_all add: process_write_byte_watched)
  have "reservations_watched (s\<lparr>process_wdata_next_cycle := False\<rparr>)"
    using assms by (simp add: reservations_watched_def)
  then show ?thesis
    unfolding process_write_def by (rule f)
qed

lemma do_reset_watched: "reservations_watched s \<Longrightarrow> reservations_watched (do_reset s)"
  by (simp add: reservations_watched_def do_reset_def Let_def)

lemma start_step_watched:
  assumes "reservations_watched s"
  shows "reservations_watched (start_step rst r1 r2 s)"
proof -
  have l: "reservations_watched (start_latch s)"
    using assms by (simp add: reservations_watched_def start_latch_def Let_def)
  have u: "reservations_watched (t\<lparr>wait_cycles := n, temp := x\<rparr>) = reservations_watched t"
    for t n x
    by (simp add: reservations_watched_def)
  have c: "reservations_watched (start_command rst r1 r2 t)" if "reservations_watched t" for t
    using that
    by (simp add: start_command_def Let_def u do_reset_watched process_watched
        process_write_watched)
  have r: "reservations_watched (start_response rst t)" if "reservations_watched t" for t
    using that by (simp add: start_response_def reservations_watched_def)
  have m: "reservations_watched (start_commit t)" if "reservations_watched t" for t
    using that by (simp add: start_commit_def reservations_watched_def Let_def)
  show ?thesis
    unfolding start_step_def by (intro m r c l)
qed

lemma apply_op_watched:
  "reservations_watched s \<Longrightarrow> apply_op x s = Inr s' \<Longrightarrow> reservations_watched s'"
proof (cases x)
  case (PutCmd cmd)
  assume a: "reservations_watched s" "apply_op x s = Inr s'"
  then have "put_cmd cmd s = Inr s'" using PutCmd by simp
  from put_cmd_monitor [OF this] a(1) show ?thesis
    by (simp add: reservations_watched_def)
qed (auto simp: put_data_def set_ready_def reservations_watched_def [of "_\<lparr>wdata := _\<rparr>"]
      reservations_watched_def [of "_\<lparr>hready := _\<rparr>"] process_watched process_write_watched
      do_reset_watched start_step_watched
    intro: iffD2 [OF reservations_watched_cong])

lemma run_ops_watched:
  "reservations_watched s \<Longrightarrow> run_ops xs s = Inr s' \<Longrightarrow> reservations_watched s'"
proof (induction xs arbitrary: s)
  case Nil
  then show ?case by simp
next
  case (Cons x xs)
  from Cons.prems(2) obtain t where t: "apply_op x s = Inr t" "run_ops xs t = Inr s'"
    by (auto split: sum.splits)
  from Cons.IH [OF apply_op_watched [OF Cons.prems(1) t(1)] t(2)] show ?case .
qed

lemma init_state_watched:
  "reservations_watched (init_state len bw bbw mn mx sec nr nw ex ws br)"
  by (simp add: reservations_watched_def init_state_def)

text \<open>
  Claim C7, amended. In every state reached from a constructed memory subordinate by
  \<open>put_cmd\<close>, \<open>put_data\<close>, \<open>set_ready\<close>, \<open>process\<close>, \<open>process_write\<close>, \<open>do_reset\<close> and whole
  cycles of \<open>start\<close>, every address in the byte range \<open>[addr, addr + 2^size)\<close> of a tuple
  in the reservation set is in the watched set. (The converse is not claimed: a watched
  address need not be covered by any reservation.)
\<close>

theorem covered_addresses_are_watched:
  "SimMem1PSubordinate_init len bw mn mx sec nr nw ex ws br = Inr s0 \<and> run_ops ops s0 = Inr s \<longrightarrow>
     (\<forall>t \<in> transaction_set s. \<forall>a. covers t a \<longrightarrow> a \<in> watched_addresses s)"
proof
  assume h: "SimMem1PSubordinate_init len bw mn mx sec nr nw ex ws br = Inr s0 \<and>
    run_ops ops s0 = Inr s"
  then have "s0 = init_state len bw (bw div 8) mn mx sec nr nw ex ws br"
    by (auto simp: SimMem1PSubordinate_init_def Let_def split: if_splits)
  then have "reservations_watched s0" by (simp add: init_state_watched)
  with h have "reservations_watched s" by (blast intro: run_ops_watched)
  then show "\<forall>t \<in> transaction_set s. \<forall>a. covers t a \<longrightarrow> a \<in> watched_addresses s"
    by (simp add: reservations_watched_def)
qed

text \<open>
  After an exclusive word read at address 0 the reservation is live and its last byte,
  address 3, is watched.
\<close>

theorem covered_addresses_are_watched_witness:
  "SimMem1PSubordinate_init 1024 32 5 25 False False False True False False =
     Inr (init_state 1024 32 4 5 25 False False False True False False) \<and>
   run_ops (SetReady Working # reserve_run)
       (init_state 1024 32 4 5 25 False False False True False False) =
     Inr (final_state reserve_run excl_subordinate) \<and>
   word_reservation \<in> transaction_set (final_state reserve_run excl_subordinate) \<and>
   covers word_reservation 3 \<and>
   3 \<in> watched_addresses (final_state reserve_run excl_subordinate)"
proof -
  let ?ini = "init_state 1024 32 4 5 25 False False False True False False"
  let ?s = "final_state reserve_run excl_subordinate"
  have i: "SimMem1PSubordinate_init 1024 32 5 25 False False False True False False = Inr ?ini"
    by (simp add: SimMem1PSubordinate_init_def)
  have "\<not> isl (run_ops reserve_run excl_subordinate)" by code_simp
  then have "run_ops reserve_run excl_subordinate = Inr ?s" by (rule final_state_Inr)
  then have r: "run_ops (SetReady Working # reserve_run) ?ini = Inr ?s"
    by (simp add: excl_subordinate_def)
  have t: "word_reservation \<in> transaction_set ?s" by code_simp
  have c: "covers word_reservation 3" by (simp add: word_reservation_def)
  have "\<forall>t \<in> transaction_set ?s. \<forall>a. covers t a \<longrightarrow> a \<in> watched_addresses ?s"
    by (rule covered_addresses_are_watched [THEN mp, OF conjI [OF i r]])
  with t c have "3 \<in> watched_addresses ?s" by blast
  with i r t c show ?thesis by (intro conjI)
qed

text \<open>
  Claim C7, as stated, fails in a reachable state: after an exclusive word read at
  address 0 and a plain byte write to address 0, the reservation has been moved to the
  failed set and address 0 is no longer watched, but address 1 still is, and the
  reservation set is empty, so no tuple covers it.
\<close>

theorem stale_watched_address:
  "\<not> isl (SimMem1PSubordinate_init 1024 32 5 25 False False False True False False) \<and>
   \<not> isl (run_ops partial_collision_run excl_subordinate) \<and>
   1 \<in> watched_addresses (final_state partial_collision_run excl_subordinate) \<and>
   transaction_set (final_state partial_collision_run excl_subordinate) = {}"
  by code_simp

section \<open>Memory subordinate: reset\<close>

text \<open>
  Claim C10: with exclusive transfers enabled, \<open>do_reset\<close> empties the memory store, zeroes
  the wait counter, empties the watched set and the reservation set, sets the collision
  flag and restores the response latch to the reset value, and leaves the
  failed-reservation set as it was.
\<close>

theorem do_reset_frames_failed_set:
  "exclusive_transfers s \<Longrightarrow>
     mem (do_reset s) = Map.empty \<and> wait_cycles (do_reset s) = 0 \<and>
     watched_addresses (do_reset s) = {} \<and> transaction_set (do_reset s) = {} \<and>
     no_collision (do_reset s) \<and> resp (do_reset s) = SRESP_default \<and>
     failed_transaction_set (do_reset s) = failed_transaction_set s"
  by (simp add: do_reset_def)

text \<open>
  The state after the partial collision above has a stored byte and one failed
  reservation; reset empties the store and keeps the failed reservation.
\<close>

theorem do_reset_frames_failed_set_witness:
  "exclusive_transfers (final_state partial_collision_run excl_subordinate) \<and>
   failed_transaction_set (final_state partial_collision_run excl_subordinate) = {word_reservation} \<and>
   mem (final_state partial_collision_run excl_subordinate) 0 = Some 187 \<and>
   mem (do_reset (final_state partial_collision_run excl_subordinate)) = Map.empty \<and>
   wait_cycles (do_reset (final_state partial_collision_run excl_subordinate)) = 0 \<and>
   watched_addresses (do_reset (final_state partial_collision_run excl_subordinate)) = {} \<and>
   transaction_set (do_reset (final_state partial_collision_run excl_subordinate)) = {} \<and>
   no_collision (do_reset (final_state partial_collision_run excl_subordinate)) \<and>
   resp (do_reset (final_state partial_collision_run excl_subordinate)) = SRESP_default \<and>
   failed_transaction_set (do_reset (final_state partial_collision_run excl_subordinate)) =
     {word_reservation}"
proof -
  let ?s = "final_state partial_collision_run excl_subordinate"
  have e: "exclusive_transfers ?s" by code_simp
  have f: "failed_transaction_set ?s = {word_reservation}" by code_simp
  have m: "mem ?s 0 = Some 187" by code_simp
  from do_reset_frames_failed_set [OF e] e f m show ?thesis by simp
qed

end
